theory Spec2Isabelle
  imports Main "HOL-Library.Word" "HOL-Library.Code_Target_Nat"
begin

section \<open>Electrum brain seeds: a model of \<open>index.js\<close>\<close>

text \<open>
  The module exports \<open>randomBrainSeed\<close>, \<open>mnemonicToSeed\<close>, \<open>seedVersion\<close> and
  \<open>checkSeed\<close>. This theory embeds the synchronous part of those functions (everything
  but the asynchronous entropy collection and the key stretching) together with the
  private helpers \<open>assertValidSeed\<close> and \<open>bnToSeed\<close>.

  Conventions of the embedding:
  \<^item> a JavaScript string is a \<open>string\<close> (a list of 8-bit characters, i.e. the UTF-8
    bytes of the text); a \<open>Buffer\<close> is a list of bytes (\<open>8 word list\<close>);
  \<^item> a \<open>BN\<close> big number that is never negative is a \<open>nat\<close>;
  \<^item> a thrown exception is \<open>Inl e\<close> of a result \<open>exn + 'a\<close>;
  \<^item> a loop that may run forever returns an \<open>option\<close>, \<open>None\<close> meaning that it does
    not return;
  \<^item> the functions of other packages (\<open>bip39-checker\<close>, \<open>create-hmac\<close>,
    \<open>create-hash\<close>, \<open>randombytes\<close>) are fields of a record \<open>deps\<close> that every
    function takes as its first argument.
\<close>

subsection \<open>Exceptions\<close>

datatype exn = Error string | TypeError string

fun message :: "exn \<Rightarrow> string" where
  "message (Error m) = m"
| "message (TypeError m) = m"

subsection \<open>Strings\<close>

text \<open>\<open>String.prototype.toLowerCase\<close> on the ASCII range: \<open>A\<close>..\<open>Z\<close> (65..90) move to
  \<open>a\<close>..\<open>z\<close>, every other byte is kept.\<close>

definition lower_char :: "char \<Rightarrow> char" where
  "lower_char c =
     (if (65::nat) \<le> of_char c \<and> (of_char c :: nat) \<le> 90
      then char_of ((of_char c :: nat) + 32) else c)"

definition toLowerCase :: "string \<Rightarrow> string" where
  "toLowerCase s = map lower_char s"

text \<open>\<open>s.split(sep)\<close> for a one-character separator: the pieces between the separators,
  empty pieces included; the empty string gives one empty piece.\<close>

fun split_on :: "char \<Rightarrow> string \<Rightarrow> string list" where
  "split_on sep [] = [[]]"
| "split_on sep (c # cs) =
     (if c = sep then [] # split_on sep cs
      else (case split_on sep cs of
              [] \<Rightarrow> [[c]]
            | w # ws \<Rightarrow> (c # w) # ws))"

text \<open>\<open>words.join(' ')\<close>.\<close>

fun join_sp :: "string list \<Rightarrow> string" where
  "join_sp [] = []"
| "join_sp [w] = w"
| "join_sp (w # v # ws) = w @ CHR '' '' # join_sp (v # ws)"

text \<open>\<open>s.substring(start, fin)\<close>: both indices are clamped to \<open>0..length s\<close> and swapped
  when they are out of order.\<close>

definition substring :: "string \<Rightarrow> int \<Rightarrow> int \<Rightarrow> string" where
  "substring s start fin =
     (let len = int (length s);
          a = min (max start 0) len;
          b = min (max fin 0) len;
          lo = min a b;
          hi = max a b
      in take (nat (hi - lo)) (drop (nat lo) s))"

text \<open>The decimal text of a non-negative integer, as a template literal prints it.\<close>

function digits10 :: "nat \<Rightarrow> string" where
  "digits10 n =
     (if n < 10 then [char_of (48 + n)]
      else digits10 (n div 10) @ [char_of (48 + n mod 10)])"
  by pat_completeness auto
termination
  by (relation "measure id") auto

declare digits10.simps [simp del]

subsection \<open>The packages the module requires\<close>

text \<open>
  \<^item> \<open>wordlists\<close>: the table behind \<open>validWordlist(language)\<close> of \<open>bip39-checker\<close>;
  \<^item> \<open>normalize_text\<close>: what \<open>normalize\<close> of \<open>bip39-checker\<close> does to a string;
  \<^item> \<open>hmac_sha512_hex key msg\<close>:
    \<open>createHmac('sha512', key).update(msg).digest('hex')\<close>;
  \<^item> \<open>sha256\<close>: \<open>createHash('sha256').update(..).digest()\<close>;
  \<^item> \<open>randomBytes n\<close>: the buffer that this call of \<open>randomBytes(n)\<close> returns.
\<close>

record deps =
  wordlists :: "string \<Rightarrow> string list option"
  normalize_text :: "string \<Rightarrow> string"
  hmac_sha512_hex :: "string \<Rightarrow> string \<Rightarrow> string"
  sha256 :: "8 word list \<Rightarrow> 8 word list"
  randomBytes :: "nat \<Rightarrow> 8 word list"

text \<open>Modelled from the spec: \<open>validWordlist\<close> is a function of \<open>bip39-checker\<close>. The
  word list provider returns the ordered word list of a language and fails for a language
  it does not know; the tests match its message against \<open>Missing wordlist\<close>.\<close>

definition validWordlist :: "deps \<Rightarrow> string \<Rightarrow> exn + string list" where
  "validWordlist d language =
     (case wordlists d language of
        None \<Rightarrow> Inl (Error (''Missing wordlist for language '' @ language))
      | Some wordlist \<Rightarrow> Inr wordlist)"

subsection \<open>\<open>bnToSeed\<close>\<close>

text \<open>
  \<^verbatim>\<open>
  while (i.cmp(ZERO)) {
    const idx = i.mod(totalWordLen).toNumber()
    words.push(wordlist[idx])
    i = i.div(totalWordLen)
  }
  \<close>
  \<open>BN.mod\<close> asserts that the divisor is not zero. With a word list of one word the loop
  never ends: the partial function then has no result.
\<close>

partial_function (option) bnToSeed_loop ::
  "string list \<Rightarrow> nat \<Rightarrow> string list \<Rightarrow> (exn + string list) option" where
  "bnToSeed_loop wordlist i words =
     (if i \<noteq> 0 then
        (if length wordlist = 0 then Some (Inl (Error ''Assertion failed''))
         else bnToSeed_loop wordlist (i div length wordlist)
                (words @ [wordlist ! (i mod length wordlist)]))
      else Some (Inr words))"

declare bnToSeed_loop.simps [code]

definition bnToSeed :: "deps \<Rightarrow> nat \<Rightarrow> string \<Rightarrow> (exn + string) option" where
  "bnToSeed d i language =
     (case validWordlist d language of
        Inl e \<Rightarrow> Some (Inl e)
      | Inr wordlist \<Rightarrow>
          (case bnToSeed_loop wordlist i [] of
             None \<Rightarrow> None
           | Some (Inl e) \<Rightarrow> Some (Inl e)
           | Some (Inr words) \<Rightarrow> Some (Inr (join_sp words))))"

subsection \<open>\<open>seedVersion\<close>\<close>

definition DEFAULT_VERSION :: string where
  "DEFAULT_VERSION = ''01''"

text \<open>\<open>versionLength\<close> is \<open>None\<close> when the caller gives no options object or one
  without that field; the default is the length of \<open>DEFAULT_VERSION\<close>.\<close>

definition seedVersion :: "deps \<Rightarrow> string \<Rightarrow> int option \<Rightarrow> string" where
  "seedVersion d brainSeed versionLength =
     (let n = (case versionLength of None \<Rightarrow> int (length DEFAULT_VERSION) | Some k \<Rightarrow> k);
          key = ''Seed version''
      in substring (hmac_sha512_hex d key brainSeed) 0 n)"

subsection \<open>\<open>assertValidSeed\<close> and \<open>checkSeed\<close>\<close>

text \<open>The options object of \<open>randomBrainSeed\<close> and of \<open>checkSeed\<close>; a field that the
  caller left out is \<open>None\<close>. (\<open>checkSeed\<close> reads \<open>version\<close> and \<open>language\<close> only.)
  An entropy argument is a string, a buffer, an array of numbers, or a value of another
  type, for which a number stands.\<close>

datatype entropy_arg =
  EString string | EBuffer "8 word list" | EArray "int list" | ENumber int

record config =
  config_bits :: "nat option"
  config_language :: "string option"
  config_entropy :: "entropy_arg option"
  config_version :: "string option"

definition no_config :: config where
  "no_config = \<lparr>config_bits = None, config_language = None, config_entropy = None,
     config_version = None\<rparr>"

record validity =
  valid :: bool
  error :: "string option"

text \<open>Modelled from the spec: \<open>normalize\<close> is a function of \<open>bip39-checker\<close>. The
  phrase normalizer canonicalises the text of a phrase; a phrase that is not a string
  (\<open>null\<close>, here \<open>None\<close>) is rejected, and the tests read its message
  \<open>seed string required\<close>.\<close>

definition normalize_seed :: "deps \<Rightarrow> string option \<Rightarrow> exn + string" where
  "normalize_seed d seed =
     (case seed of
        None \<Rightarrow> Inl (TypeError ''seed string required'')
      | Some s \<Rightarrow> Inr (normalize_text d s))"

text \<open>Modelled from the spec: \<open>checkWords\<close> is a function of \<open>bip39-checker\<close>, the
  word-membership check: every word of the phrase, split at single spaces, is a word of
  the language's word list. It asks \<open>validWordlist\<close> for the list.\<close>

definition checkWords :: "deps \<Rightarrow> string \<Rightarrow> string \<Rightarrow> exn + bool" where
  "checkWords d seed language =
     (case validWordlist d language of
        Inl e \<Rightarrow> Inl e
      | Inr wordlist \<Rightarrow>
          Inr (list_all (\<lambda>w. w \<in> set wordlist) (split_on CHR '' '' seed)))"

definition assertValidSeed ::
  "deps \<Rightarrow> string \<Rightarrow> string option \<Rightarrow> string \<Rightarrow> exn + unit" where
  "assertValidSeed d brainSeed version0 language =
     (let version =
            toLowerCase (case version0 of None \<Rightarrow> DEFAULT_VERSION | Some v \<Rightarrow> v)
      in case checkWords d brainSeed language of
           Inl e \<Rightarrow> Inl e
         | Inr ok \<Rightarrow>
             if \<not> ok then Inl (Error ''Invalid brain seed'')
             else
               let sv = seedVersion d brainSeed (Some (int (length version))) in
               if sv \<noteq> version then
                 let words = length (split_on CHR '' '' brainSeed);
                     shortStr =
                       (if words < 11
                        then ''.  Brain seeds are about 12 words but this seed is only ''
                               @ digits10 words @ '' words.''
                        else [])
                 in Inl (Error (''Invalid brain seed version, expecting '' @ version
                                  @ '' got '' @ sv @ shortStr))
               else Inr ())"

text \<open>The body of \<open>checkSeed\<close> is one \<open>try\<close> block: whatever \<open>normalize\<close> or
  \<open>assertValidSeed\<close> throws is caught and its message returned.\<close>

definition checkSeed :: "deps \<Rightarrow> string option \<Rightarrow> config option \<Rightarrow> exn + validity" where
  "checkSeed d brainSeed options =
     (let opts = (case options of None \<Rightarrow> no_config | Some c \<Rightarrow> c);
          version = (case config_version opts of None \<Rightarrow> DEFAULT_VERSION | Some v \<Rightarrow> v);
          language = (case config_language opts of None \<Rightarrow> ''english'' | Some l \<Rightarrow> l)
      in case (case normalize_seed d brainSeed of
                 Inl e \<Rightarrow> Inl e
               | Inr seed \<Rightarrow> assertValidSeed d seed (Some version) language) of
           Inr _ \<Rightarrow> Inr \<lparr>valid = True, error = None\<rparr>
         | Inl err \<Rightarrow> Inr \<lparr>valid = False, error = Some (message err)\<rparr>)"

subsection \<open>\<open>randomBrainSeed\<close>\<close>

definition MAX_SAFE_INTEGER :: nat where
  "MAX_SAFE_INTEGER = 9007199254740991"

text \<open>\<open>!entropy\<close>: the empty string and the number zero are falsy; a buffer and an
  array, even empty, are truthy.\<close>

fun truthy :: "entropy_arg \<Rightarrow> bool" where
  "truthy (EString s) = (s \<noteq> [])"
| "truthy (EBuffer b) = True"
| "truthy (EArray xs) = True"
| "truthy (ENumber n) = (n \<noteq> 0)"

text \<open>\<open>Buffer.from(new Int32Array(entropy).buffer)\<close>: each number is wrapped to 32 bits
  and stored as four bytes, the least significant first.\<close>

definition int32_bytes :: "int \<Rightarrow> 8 word list" where
  "int32_bytes x =
     (let w = (word_of_int x :: 32 word)
      in [ucast w, ucast (drop_bit 8 w), ucast (drop_bit 16 w), ucast (drop_bit 24 w)])"

text \<open>What the hash is fed with. For a value that is neither a string, a buffer nor an
  array, \<open>update\<close> throws, and the \<open>catch\<close> block throws the \<open>TypeError\<close> below.\<close>

fun hash_input :: "entropy_arg \<Rightarrow> exn + 8 word list" where
  "hash_input (EString s) = Inr (map (\<lambda>c. of_nat (of_char c)) s)"
| "hash_input (EBuffer b) = Inr b"
| "hash_input (EArray xs) = Inr (concat (map int32_bytes xs))"
| "hash_input (ENumber n) =
     Inl (TypeError ''entropy parameter must be a string, buffer, or array'')"

text \<open>\<open>new BN(seedBuf)\<close> reads the buffer as a big-endian number; \<open>shrn\<close> shifts to the
  right.\<close>

definition bn_of_buffer :: "8 word list \<Rightarrow> nat" where
  "bn_of_buffer buf = foldl (\<lambda>acc b. acc * 256 + unat b) 0 buf"

definition shrn :: "nat \<Rightarrow> nat \<Rightarrow> nat" where
  "shrn x n = x div 2 ^ n"

text \<open>\<^verbatim>\<open>new BN(seedBuf).shrn(Math.ceil(bits / 8) * 8 - bits)\<close>\<close>

definition trim_bits :: "8 word list \<Rightarrow> nat \<Rightarrow> nat" where
  "trim_bits seedBuf bits = shrn (bn_of_buffer seedBuf) ((bits + 7) div 8 * 8 - bits)"

text \<open>
  \<^verbatim>\<open>
  for (let nonce = 1; nonce < Number.MAX_SAFE_INTEGER; nonce++) {
    entropyBn = entropyBn.add(new BN(nonce))
    brainSeed = bnToSeed(entropyBn, language)
    if (brainSeed && seedVersion(brainSeed, {versionLength: version.length}) === version) {
      break
    }
  }
  return brainSeed
  \<close>
  The arguments are the loop's variables on entry to an iteration; \<open>brainSeed\<close> is
  \<open>None\<close> while it is \<open>undefined\<close>.
\<close>

function mine_loop ::
  "deps \<Rightarrow> string \<Rightarrow> string \<Rightarrow> nat \<Rightarrow> nat \<Rightarrow> string option \<Rightarrow> (exn + string option) option"
  where
  "mine_loop d language version nonce entropyBn brainSeed =
     (if nonce < MAX_SAFE_INTEGER then
        (case bnToSeed d (entropyBn + nonce) language of
           None \<Rightarrow> None
         | Some (Inl e) \<Rightarrow> Some (Inl e)
         | Some (Inr seed) \<Rightarrow>
             if seed \<noteq> [] \<and> seedVersion d seed (Some (int (length version))) = version
             then Some (Inr (Some seed))
             else mine_loop d language version (nonce + 1) (entropyBn + nonce) (Some seed))
      else Some (Inr brainSeed))"
  by pat_completeness auto
termination
  by (relation "measure (\<lambda>(d, language, version, nonce, entropyBn, brainSeed).
        MAX_SAFE_INTEGER - nonce)") auto

declare mine_loop.simps [simp del]

text \<open>\<open>seedCallback\<close> tells whether the caller passed a callback. Without entropy and
  with a callback the function starts the asynchronous entropy collection and returns
  \<open>undefined\<close> (\<open>Inr None\<close>); what the callback later receives is not modelled.\<close>

definition randomBrainSeed ::
  "deps \<Rightarrow> config option \<Rightarrow> bool \<Rightarrow> (exn + string option) option" where
  "randomBrainSeed d config0 seedCallback =
     (let cfg = (case config0 of None \<Rightarrow> no_config | Some c \<Rightarrow> c);
          bits = (case config_bits cfg of None \<Rightarrow> 132 | Some b \<Rightarrow> b);
          language = (case config_language cfg of None \<Rightarrow> ''english'' | Some l \<Rightarrow> l);
          version = (case config_version cfg of None \<Rightarrow> DEFAULT_VERSION | Some v \<Rightarrow> v);
          bytes = (bits + 7) div 8;
          no_entropy =
            (if \<not> seedCallback
             then Some (Inl (TypeError
               ''Provide seedCallback parameter unless you plan to provide config.entropy''))
             else Some (Inr None))
      in case config_entropy cfg of
           None \<Rightarrow> no_entropy
         | Some entropy \<Rightarrow>
             if \<not> truthy entropy then no_entropy
             else
               (let seedBuf0 = randomBytes d bytes in
                case hash_input entropy of
                  Inl e \<Rightarrow> Some (Inl e)
                | Inr data \<Rightarrow>
                    (let seedBuf = take bytes (sha256 d (data @ seedBuf0));
                         entropyBn = trim_bits seedBuf bits
                     in mine_loop d language (toLowerCase version) 1 entropyBn None)))"

subsection \<open>Radix digits, as the specification words them\<close>

text \<open>The specification's WordCodec: take \<open>v mod B\<close> as the next index, then
  \<open>v := v div B\<close>, until \<open>v = 0\<close>. The digits come out least significant first.\<close>

function radix_digits :: "nat \<Rightarrow> nat \<Rightarrow> nat list" where
  "radix_digits B v =
     (if v = 0 \<or> B < 2 then [] else (v mod B) # radix_digits B (v div B))"
  by pat_completeness auto
termination
  by (relation "measure snd") auto

declare radix_digits.simps [simp del]

text \<open>The number that a digit sequence, least significant digit first, stands for.\<close>

fun radix_value :: "nat \<Rightarrow> nat list \<Rightarrow> nat" where
  "radix_value B [] = 0"
| "radix_value B (x # xs) = x + B * radix_value B xs"

text \<open>The phrase of a number over a word list.\<close>

definition phrase_of :: "string list \<Rightarrow> nat \<Rightarrow> string" where
  "phrase_of wordlist v =
     join_sp (map (\<lambda>idx. wordlist ! idx) (radix_digits (length wordlist) v))"

subsection \<open>Notions used in the statements\<close>

text \<open>The sum \<open>1 + 2 + \<dots> + n\<close>: what the loop has added to the starting value when
  it tests the candidate of nonce \<open>n\<close>.\<close>

fun tri :: "nat \<Rightarrow> nat" where
  "tri 0 = 0"
| "tri (Suc n) = tri n + Suc n"

text \<open>The loop's test on the candidate \<open>v\<close>: its phrase is not empty and its version tag
  is the target.\<close>

definition version_hit :: "deps \<Rightarrow> string list \<Rightarrow> string \<Rightarrow> nat \<Rightarrow> bool" where
  "version_hit d wordlist version v \<longleftrightarrow>
     phrase_of wordlist v \<noteq> [] \<and>
     seedVersion d (phrase_of wordlist v) (Some (int (length version))) = version"

text \<open>The version and the language that \<open>checkSeed\<close> works with: those of the options
  object, or the defaults.\<close>

definition version_of :: "config option \<Rightarrow> string" where
  "version_of options =
     (case options of
        None \<Rightarrow> DEFAULT_VERSION
      | Some c \<Rightarrow> (case config_version c of None \<Rightarrow> DEFAULT_VERSION | Some v \<Rightarrow> v))"

definition language_of :: "config option \<Rightarrow> string" where
  "language_of options =
     (case options of
        None \<Rightarrow> ''english''
      | Some c \<Rightarrow> (case config_language c of None \<Rightarrow> ''english'' | Some l \<Rightarrow> l))"

text \<open>The bit strength that \<open>randomBrainSeed\<close> works with, and the number its loop
  starts from when the entropy argument gives the hash the bytes \<open>entropyBytes\<close>.\<close>

definition bits_of :: "config \<Rightarrow> nat" where
  "bits_of cfg = (case config_bits cfg of None \<Rightarrow> 132 | Some b \<Rightarrow> b)"

definition entropy_value :: "deps \<Rightarrow> nat \<Rightarrow> 8 word list \<Rightarrow> nat" where
  "entropy_value d bits entropyBytes =
     trim_bits
       (take ((bits + 7) div 8)
          (sha256 d (entropyBytes @ randomBytes d ((bits + 7) div 8))))
       bits"

definition lower_hex :: "char \<Rightarrow> bool" where
  "lower_hex c \<longleftrightarrow> c \<in> set ''0123456789abcdef''"

subsection \<open>A small instance for the examples\<close>

text \<open>A list of four words, and stand-ins for the required packages: a digest of 128
  characters that is all \<open>0\<close> for the phrases \<open>lazy\<close> and \<open>lazy dog\<close> and all \<open>f\<close> for
  every other message, a hash of 32 zero bytes, and a random source that returns zero
  bytes.\<close>

definition demo_wordlist :: "string list" where
  "demo_wordlist = [''able'', ''dog'', ''lazy'', ''mother'']"

definition demo_wordlists :: "string \<Rightarrow> string list option" where
  "demo_wordlists language = (if language = ''english'' then Some demo_wordlist else None)"

definition demo_digest :: "string \<Rightarrow> string \<Rightarrow> string" where
  "demo_digest key msg =
     replicate 128 (if msg = ''lazy'' \<or> msg = ''lazy dog'' then CHR ''0'' else CHR ''f'')"

definition demo_sha256 :: "8 word list \<Rightarrow> 8 word list" where
  "demo_sha256 m = replicate 32 0"

definition demo_randomBytes :: "nat \<Rightarrow> 8 word list" where
  "demo_randomBytes n = replicate n 0"

definition demo_deps :: deps where
  "demo_deps = \<lparr>wordlists = demo_wordlists, normalize_text = toLowerCase,
     hmac_sha512_hex = demo_digest, sha256 = demo_sha256, randomBytes = demo_randomBytes\<rparr>"

text \<open>Two calls of \<open>randomBrainSeed\<close>: one for the version \<open>00\<close>, one for a version
  that no hexadecimal digest can start with.\<close>

definition demo_config :: config where
  "demo_config = \<lparr>config_bits = None, config_language = None,
     config_entropy = Some (EString ''entropy''), config_version = Some ''00''\<rparr>"

definition unmatched_config :: config where
  "unmatched_config = \<lparr>config_bits = None, config_language = None,
     config_entropy = Some (EString ''entropy''), config_version = Some ''g''\<rparr>"

text \<open>Options that ask for a language without a word list.\<close>

definition pig_latin_options :: config where
  "pig_latin_options = \<lparr>config_bits = None, config_language = Some ''pig_latin'',
     config_entropy = None, config_version = None\<rparr>"

section \<open>Properties\<close>

subsection \<open>Radix digits\<close>

lemma radix_digits_0: "radix_digits B 0 = []"
  by (simp add: radix_digits.simps)

lemma radix_digits_step:
  "0 < v \<Longrightarrow> 2 \<le> B \<Longrightarrow> radix_digits B v = (v mod B) # radix_digits B (v div B)"
  by (subst radix_digits.simps) simp

lemma radix_value_digits: "2 \<le> B \<Longrightarrow> radix_value B (radix_digits B v) = v"
proof (induction B v rule: radix_digits.induct)
  case (1 B v)
  show ?case
  proof (cases "v = 0")
    case True
    then show ?thesis by (simp add: radix_digits_0)
  next
    case False
    with 1 show ?thesis by (simp add: radix_digits_step)
  qed
qed

lemma radix_digits_bound: "x \<in> set (radix_digits B v) \<Longrightarrow> x < B"
proof (induction B v rule: radix_digits.induct)
  case (1 B v)
  show ?case
  proof (cases "v = 0 \<or> B < 2")
    case True
    with 1(2) show ?thesis by (simp add: radix_digits.simps)
  next
    case False
    with 1 show ?thesis by (auto simp: radix_digits_step)
  qed
qed

lemma radix_digits_length_bounds:
  "2 \<le> B \<Longrightarrow> 0 < v \<Longrightarrow>
     B ^ (length (radix_digits B v) - 1) \<le> v \<and> v < B ^ length (radix_digits B v)"
proof (induction B v rule: radix_digits.induct)
  case (1 B v)
  show ?case
  proof (cases "v div B = 0")
    case True
    with 1(2,3) have "v < B" by (simp add: div_eq_0_iff)
    with 1(2,3) True show ?thesis
      by (simp add: radix_digits_step radix_digits_0)
  next
    case False
    with 1 have ih: "B ^ (length (radix_digits B (v div B)) - 1) \<le> v div B"
      "v div B < B ^ length (radix_digits B (v div B))"
      by auto
    from False 1(2) have len: "0 < length (radix_digits B (v div B))"
      by (simp add: radix_digits_step)
    have "B * B ^ (length (radix_digits B (v div B)) - 1) \<le> B * (v div B)"
      using ih(1) by simp
    also have "\<dots> \<le> v" by simp
    finally have lo: "B ^ length (radix_digits B (v div B)) \<le> v"
      using len by (cases "length (radix_digits B (v div B))") simp_all
    have "v < B + B * (v div B)"
      using 1(2) by (intro dividend_less_times_div) simp
    also have "\<dots> = B * (v div B + 1)" by simp
    also have "\<dots> \<le> B * B ^ length (radix_digits B (v div B))"
      using ih(2) by (intro mult_le_mono2) simp
    finally have hi: "v < B * B ^ length (radix_digits B (v div B))" .
    from lo hi 1(2,3) show ?thesis
      by (simp add: radix_digits_step)
  qed
qed

lemma radix_value_less:
  "\<forall>x \<in> set xs. x < B \<Longrightarrow> radix_value B xs < B ^ length xs"
proof (induction xs)
  case Nil
  then show ?case by simp
next
  case (Cons x xs)
  then have "x < B" and "radix_value B xs < B ^ length xs" by simp_all
  then have "x + B * radix_value B xs < B + B * radix_value B xs" by simp
  also have "\<dots> = B * (radix_value B xs + 1)" by simp
  also have "\<dots> \<le> B * B ^ length xs"
    using \<open>radix_value B xs < B ^ length xs\<close> by (intro mult_le_mono2) simp
  finally show ?case by simp
qed

lemma bnToSeed_loop_digits:
  "2 \<le> length wordlist \<Longrightarrow>
   bnToSeed_loop wordlist i words =
     Some (Inr (words @ map (\<lambda>idx. wordlist ! idx) (radix_digits (length wordlist) i)))"
proof (induction "length wordlist" i arbitrary: words rule: radix_digits.induct)
  case (1 i)
  show ?case
  proof (cases "i = 0")
    case True
    then show ?thesis
      by (subst bnToSeed_loop.simps) (simp add: radix_digits_0)
  next
    case False
    from 1(2) have ne: "length wordlist \<noteq> 0" by auto
    from False ne have "bnToSeed_loop wordlist i words =
        bnToSeed_loop wordlist (i div length wordlist)
          (words @ [wordlist ! (i mod length wordlist)])"
      by (subst bnToSeed_loop.simps) simp
    also have "\<dots> = Some (Inr ((words @ [wordlist ! (i mod length wordlist)]) @
        map (\<lambda>idx. wordlist ! idx) (radix_digits (length wordlist) (i div length wordlist))))"
      using False 1(2) by (intro 1(1)) auto
    finally show ?thesis
      using False 1(2) by (simp add: radix_digits_step)
  qed
qed

lemma bnToSeed_phrase:
  "wordlists d language = Some wordlist \<Longrightarrow> 2 \<le> length wordlist \<Longrightarrow>
   bnToSeed d i language = Some (Inr (phrase_of wordlist i))"
  by (simp add: bnToSeed_def validWordlist_def bnToSeed_loop_digits phrase_of_def)

text \<open>Outside that range: with an empty word list \<open>BN.mod\<close> throws, and with a list of
  one word the loop does not return.\<close>

lemma bnToSeed_loop_no_words:
  "i \<noteq> 0 \<Longrightarrow> bnToSeed_loop [] i words = Some (Inl (Error ''Assertion failed''))"
  by (subst bnToSeed_loop.simps) simp

lemma bnToSeed_loop_one_word:
  assumes "i \<noteq> 0"
  shows "bnToSeed_loop [w] i words = None"
proof -
  have "length wordlist = 1 \<longrightarrow> j = 0"
    if "bnToSeed_loop wordlist j ws = Some y" for wordlist j ws y
    using that
  proof (induction wordlist j ws y rule: bnToSeed_loop.raw_induct [rotated, consumes 1])
    case (1 f wordlist j ws y)
    show ?case
    proof (intro impI, rule ccontr)
      assume len: "length wordlist = 1" and "j \<noteq> 0"
      with 1(2) have run: "f wordlist j (ws @ [wordlist ! 0]) = Some y"
        by simp
      have "length wordlist = 1 \<longrightarrow> j = 0"
        using run by (rule 1(1))
      with len \<open>j \<noteq> 0\<close> show False by blast
    qed
  qed
  with assms show ?thesis
    by (cases "bnToSeed_loop [w] i words") auto
qed

lemma radix_digits_minimal:
  assumes "2 \<le> B" "0 < v" "\<forall>x \<in> set xs. x < B" "radix_value B xs = v"
  shows "length (radix_digits B v) \<le> length xs"
proof -
  from assms(1,2) have "B ^ (length (radix_digits B v) - 1) \<le> v"
    using radix_digits_length_bounds by blast
  also from assms(3,4) have "v < B ^ length xs"
    using radix_value_less by blast
  finally have "B ^ (length (radix_digits B v) - 1) < B ^ length xs" .
  with assms(1) have "length (radix_digits B v) - 1 < length xs"
    by (simp add: power_less_imp_less_exp)
  then show ?thesis by simp
qed

subsection \<open>Claim C5: the word encoding\<close>

text \<open>
  C5. For a number \<open>v > 0\<close> and a word list of \<open>B \<ge> 2\<close> words, the loop of
  \<open>bnToSeed\<close> produces the words at the indices \<open>v mod B\<close>, \<open>(v div B) mod B\<close>, ...
  until the quotient is zero, in that order (least significant radix digit first), and
  \<open>bnToSeed\<close> returns them joined by single spaces. The digits are all below \<open>B\<close>,
  they stand for \<open>v\<close>, and no sequence of digits below \<open>B\<close> that stands for \<open>v\<close> is
  shorter: the word count is the minimal one, there is no padding.
\<close>

theorem bnToSeed_encoding:
  assumes "wordlists d language = Some wordlist" and "2 \<le> length wordlist" and "0 < v"
  shows "bnToSeed_loop wordlist v [] =
           Some (Inr (map (\<lambda>idx. wordlist ! idx) (radix_digits (length wordlist) v)))
       \<and> bnToSeed d v language =
           Some (Inr (join_sp (map (\<lambda>idx. wordlist ! idx) (radix_digits (length wordlist) v))))
       \<and> radix_digits (length wordlist) v =
           v mod length wordlist # radix_digits (length wordlist) (v div length wordlist)
       \<and> radix_value (length wordlist) (radix_digits (length wordlist) v) = v
       \<and> (\<forall>x \<in> set (radix_digits (length wordlist) v). x < length wordlist)
       \<and> (\<forall>xs. (\<forall>x \<in> set xs. x < length wordlist) \<and> radix_value (length wordlist) xs = v
             \<longrightarrow> length (radix_digits (length wordlist) v) \<le> length xs)"
proof (intro conjI)
  show "bnToSeed_loop wordlist v [] =
      Some (Inr (map (\<lambda>idx. wordlist ! idx) (radix_digits (length wordlist) v)))"
    using bnToSeed_loop_digits [OF assms(2), of v "[]"] by simp
  show "bnToSeed d v language =
      Some (Inr (join_sp (map (\<lambda>idx. wordlist ! idx) (radix_digits (length wordlist) v))))"
    using bnToSeed_phrase [OF assms(1,2)] by (simp add: phrase_of_def)
  show "radix_digits (length wordlist) v =
      v mod length wordlist # radix_digits (length wordlist) (v div length wordlist)"
    using assms(3,2) by (rule radix_digits_step)
  show "radix_value (length wordlist) (radix_digits (length wordlist) v) = v"
    using assms(2) by (rule radix_value_digits)
  show "\<forall>x \<in> set (radix_digits (length wordlist) v). x < length wordlist"
    using radix_digits_bound by blast
  show "\<forall>xs. (\<forall>x \<in> set xs. x < length wordlist) \<and> radix_value (length wordlist) xs = v
      \<longrightarrow> length (radix_digits (length wordlist) v) \<le> length xs"
    using radix_digits_minimal [OF assms(2,3)] by blast
qed

text \<open>The instance: 6 is \<open>2 + 1 * 4\<close>, so its words are the third and the second of
  the list.\<close>

lemma demo_wordlists_english: "wordlists demo_deps ''english'' = Some demo_wordlist"
  by (simp add: demo_deps_def demo_wordlists_def)

lemma demo_wordlist_length: "length demo_wordlist = 4"
  by (simp add: demo_wordlist_def)

theorem bnToSeed_encoding_witness:
  "bnToSeed_loop demo_wordlist 6 [] = Some (Inr [''lazy'', ''dog''])
   \<and> bnToSeed demo_deps 6 ''english'' = Some (Inr ''lazy dog'')
   \<and> radix_digits 4 6 = [2, 1]
   \<and> radix_value 4 [2, 1] = 6"
proof -
  have len: "2 \<le> length demo_wordlist" by (simp add: demo_wordlist_length)
  have pos: "0 < (6::nat)" by simp
  have ds: "radix_digits 4 6 = [2, 1]"
    by (simp add: radix_digits_step radix_digits_0)
  note th = bnToSeed_encoding [OF demo_wordlists_english len pos,
      unfolded demo_wordlist_length ds]
  have words: "map (\<lambda>idx. demo_wordlist ! idx) [2, 1] = [''lazy'', ''dog'']"
    by (simp add: demo_wordlist_def)
  from th have "bnToSeed_loop demo_wordlist 6 [] = Some (Inr [''lazy'', ''dog''])"
    unfolding words by (rule conjunct1)
  moreover from th have "bnToSeed demo_deps 6 ''english'' = Some (Inr ''lazy dog'')"
    unfolding words by simp
  moreover from th have "radix_value 4 [2, 1] = 6"
    by blast
  ultimately show ?thesis using ds by blast
qed

subsection \<open>Strings\<close>

lemma substring_from_0: "substring s 0 k = take (nat k) s"
proof (cases "k \<le> 0")
  case True
  then have "max k 0 = 0" by simp
  then show ?thesis using True
    by (simp add: substring_def Let_def)
next
  case False
  then have m: "max k 0 = k" by simp
  show ?thesis
  proof (cases "k \<le> int (length s)")
    case True
    with False m show ?thesis
      by (simp add: substring_def Let_def)
  next
    case b: False
    with False m have "min k (int (length s)) = int (length s)" by simp
    with False m b show ?thesis
      by (simp add: substring_def Let_def)
  qed
qed

lemma lower_char_idem: "lower_char (lower_char c) = lower_char c"
proof (cases "(65::nat) \<le> of_char c \<and> (of_char c :: nat) \<le> 90")
  case True
  define n :: nat where "n = of_char c"
  from True have n: "65 \<le> n" "n \<le> 90" by (simp_all add: n_def)
  have lc: "lower_char c = char_of (n + 32)"
    using True unfolding lower_char_def n_def by (rule if_P)
  have "(of_char (char_of (n + 32)) :: nat) = (n + 32) mod 256"
    by (rule of_char_of)
  with n have oc: "(of_char (char_of (n + 32)) :: nat) = n + 32" by simp
  have "\<not> ((65::nat) \<le> of_char (char_of (n + 32)) \<and> (of_char (char_of (n + 32)) :: nat) \<le> 90)"
    unfolding oc using n by simp
  then have "lower_char (char_of (n + 32)) = char_of (n + 32)"
    unfolding lower_char_def by (rule if_not_P)
  with lc show ?thesis by simp
next
  case False
  then have "lower_char c = c"
    unfolding lower_char_def by (rule if_not_P)
  then show ?thesis by simp
qed

lemma toLowerCase_idem: "toLowerCase (toLowerCase s) = toLowerCase s"
  by (simp add: toLowerCase_def lower_char_idem)

subsection \<open>Claim C6: the version tag\<close>

lemma seedVersion_take:
  "seedVersion d brainSeed (Some k) = take (nat k) (hmac_sha512_hex d ''Seed version'' brainSeed)"
  by (simp add: seedVersion_def substring_from_0)

lemma seedVersion_default:
  "seedVersion d brainSeed None = take 2 (hmac_sha512_hex d ''Seed version'' brainSeed)"
  by (simp add: seedVersion_def substring_from_0 DEFAULT_VERSION_def)

text \<open>
  C6. \<open>seedVersion(p, {versionLength: k})\<close> is the first \<open>k\<close> characters of the hex
  digest of the HMAC-SHA512 of the phrase under the fixed key \<open>Seed version\<close> (two
  characters when no length is given). It is a function of the phrase and of \<open>k\<close> alone:
  the word lists of the languages, the normalizer, the hash and the random source have no
  part in it.
\<close>

theorem seedVersion_is_hmac_prefix:
  "seedVersion d brainSeed (Some k) =
     take (nat k) (hmac_sha512_hex d ''Seed version'' brainSeed)
   \<and> seedVersion d brainSeed None =
     take 2 (hmac_sha512_hex d ''Seed version'' brainSeed)
   \<and> seedVersion (d\<lparr>wordlists := wl, normalize_text := nt, sha256 := h, randomBytes := r\<rparr>)
        brainSeed versionLength = seedVersion d brainSeed versionLength"
  by (simp add: seedVersion_take seedVersion_default) (simp add: seedVersion_def)

subsection \<open>Claim C10: the length of a version tag\<close>

text \<open>
  C10. When the hex digest of the HMAC is, as for SHA-512, a string of 128 lowercase
  hexadecimal characters, \<open>seedVersion(p, {versionLength: k})\<close> is a string of exactly \<open>k\<close>
  lowercase hexadecimal characters for \<open>1 \<le> k \<le> 128\<close>, the whole digest of 128
  characters for a larger \<open>k\<close>, and a string of exactly 2 characters when no length is
  given.
\<close>

theorem seedVersion_length:
  assumes "length (hmac_sha512_hex d ''Seed version'' p) = 128"
    and "\<forall>c \<in> set (hmac_sha512_hex d ''Seed version'' p). lower_hex c"
  shows "(1 \<le> k \<and> k \<le> 128 \<longrightarrow>
            length (seedVersion d p (Some k)) = nat k
            \<and> (\<forall>c \<in> set (seedVersion d p (Some k)). lower_hex c))
       \<and> (128 < k \<longrightarrow>
            seedVersion d p (Some k) = hmac_sha512_hex d ''Seed version'' p
            \<and> length (seedVersion d p (Some k)) = 128)
       \<and> length (seedVersion d p None) = 2
       \<and> (\<forall>c \<in> set (seedVersion d p None). lower_hex c)"
proof (intro conjI impI)
  assume k: "1 \<le> k \<and> k \<le> 128"
  with assms(1) show "length (seedVersion d p (Some k)) = nat k"
    by (auto simp: seedVersion_take min_def)
  from assms(2) show "\<forall>c \<in> set (seedVersion d p (Some k)). lower_hex c"
    by (auto simp: seedVersion_take dest: in_set_takeD)
next
  assume k: "128 < k"
  with assms(1) show "seedVersion d p (Some k) = hmac_sha512_hex d ''Seed version'' p"
    by (simp add: seedVersion_take)
  with assms(1) show "length (seedVersion d p (Some k)) = 128"
    by simp
next
  from assms(1) show "length (seedVersion d p None) = 2"
    by (simp add: seedVersion_default)
  from assms(2) show "\<forall>c \<in> set (seedVersion d p None). lower_hex c"
    by (auto simp: seedVersion_default dest: in_set_takeD)
qed

lemma demo_digest_length: "length (hmac_sha512_hex demo_deps key msg) = 128"
  by (simp add: demo_deps_def demo_digest_def)

lemma demo_digest_hex: "\<forall>c \<in> set (hmac_sha512_hex demo_deps key msg). lower_hex c"
  by (simp add: demo_deps_def demo_digest_def lower_hex_def)

lemma demo_digest_lazy_dog: "hmac_sha512_hex demo_deps key ''lazy dog'' = replicate 128 CHR ''0''"
  by (simp add: demo_deps_def demo_digest_def)

theorem seedVersion_length_witness:
  "seedVersion demo_deps ''lazy dog'' (Some 3) = ''000''
   \<and> length (seedVersion demo_deps ''lazy dog'' (Some 200)) = 128
   \<and> length (seedVersion demo_deps ''lazy dog'' None) = 2"
proof -
  note th = seedVersion_length [where d = demo_deps and p = "''lazy dog''",
      OF demo_digest_length demo_digest_hex]
  have "seedVersion demo_deps ''lazy dog'' (Some 3) = ''000''"
    by (simp add: seedVersion_take demo_digest_lazy_dog numeral_3_eq_3)
  moreover have "128 < (200::int)" by simp
  with th [of 200] have "length (seedVersion demo_deps ''lazy dog'' (Some 200)) = 128"
    by blast
  moreover from th [of 0] have "length (seedVersion demo_deps ''lazy dog'' None) = 2"
    by blast
  ultimately show ?thesis by blast
qed

subsection \<open>Claim C9: the version is compared in lowercase\<close>

lemma assertValidSeed_lower:
  "assertValidSeed d seed (Some (toLowerCase V)) language =
   assertValidSeed d seed (Some V) language"
  by (simp add: assertValidSeed_def toLowerCase_idem)

text \<open>
  C9. \<open>checkSeed\<close> gives the same result for a version \<open>V\<close> and for \<open>V\<close> in lowercase,
  whatever the phrase and the language; \<open>randomBrainSeed\<close> gives the same result for
  both too, and the target that its loop compares the tags with is \<open>V\<close> in lowercase.
\<close>

theorem version_lowercased:
  "checkSeed d p (Some (opts\<lparr>config_version := Some V\<rparr>)) =
     checkSeed d p (Some (opts\<lparr>config_version := Some (toLowerCase V)\<rparr>))
   \<and> randomBrainSeed d (Some (cfg\<lparr>config_version := Some V\<rparr>)) seedCallback =
     randomBrainSeed d (Some (cfg\<lparr>config_version := Some (toLowerCase V)\<rparr>)) seedCallback
   \<and> randomBrainSeed d
       (Some \<lparr>config_bits = Some bits, config_language = Some language,
              config_entropy = Some (EBuffer buf), config_version = Some V\<rparr>) seedCallback =
     mine_loop d language (toLowerCase V) 1 (entropy_value d bits buf) None"
proof (intro conjI)
  show "randomBrainSeed d
       (Some \<lparr>config_bits = Some bits, config_language = Some language,
              config_entropy = Some (EBuffer buf), config_version = Some V\<rparr>) seedCallback =
     mine_loop d language (toLowerCase V) 1 (entropy_value d bits buf) None"
    by (simp add: randomBrainSeed_def Let_def entropy_value_def)
  show "checkSeed d p (Some (opts\<lparr>config_version := Some V\<rparr>)) =
     checkSeed d p (Some (opts\<lparr>config_version := Some (toLowerCase V)\<rparr>))"
    by (simp add: checkSeed_def Let_def assertValidSeed_lower cong: sum.case_cong)
  show "randomBrainSeed d (Some (cfg\<lparr>config_version := Some V\<rparr>)) seedCallback =
     randomBrainSeed d (Some (cfg\<lparr>config_version := Some (toLowerCase V)\<rparr>)) seedCallback"
    by (simp add: randomBrainSeed_def Let_def toLowerCase_idem
        cong: option.case_cong sum.case_cong if_cong)
qed

subsection \<open>Claim C7: trimming to the bit strength\<close>

lemma foldl_bn_acc:
  "foldl (\<lambda>acc b. acc * 256 + unat b) a buf = a * 256 ^ length buf + bn_of_buffer buf"
  for buf :: "8 word list"
proof (induction buf arbitrary: a)
  case Nil
  then show ?case by (simp add: bn_of_buffer_def)
next
  case (Cons b bs)
  have "foldl (\<lambda>acc b. acc * 256 + unat b) a (b # bs) =
      (a * 256 + unat b) * 256 ^ length bs + bn_of_buffer bs"
    by (simp add: Cons.IH)
  moreover have "bn_of_buffer (b # bs) = unat b * 256 ^ length bs + bn_of_buffer bs"
    using Cons.IH [of "unat b"] by (simp add: bn_of_buffer_def)
  ultimately show ?case by (simp add: algebra_simps)
qed

lemma bn_of_buffer_Cons:
  "bn_of_buffer (b # bs) = unat b * 256 ^ length bs + bn_of_buffer bs"
  using foldl_bn_acc [of "unat b" bs] by (simp add: bn_of_buffer_def)

lemma bn_of_buffer_less: "bn_of_buffer buf < 256 ^ length buf"
proof (induction buf)
  case Nil
  then show ?case by (simp add: bn_of_buffer_def)
next
  case (Cons b bs)
  have "unat b < 256" using unsigned_less [of b, where 'a = nat] by simp
  then have "unat b * 256 ^ length bs + bn_of_buffer bs < (unat b + 1) * 256 ^ length bs"
    using Cons.IH by simp
  also have "\<dots> \<le> 256 * 256 ^ length bs"
    using \<open>unat b < 256\<close> by (intro mult_le_mono1) simp
  finally show ?case by (simp add: bn_of_buffer_Cons)
qed

lemma bn_of_buffer_big_endian:
  "bn_of_buffer buf = (\<Sum>i<length buf. unat (buf ! i) * 256 ^ (length buf - 1 - i))"
proof (induction buf)
  case Nil
  then show ?case by (simp add: bn_of_buffer_def)
next
  case (Cons b bs)
  then show ?case
    by (simp add: bn_of_buffer_Cons sum.lessThan_Suc_shift del: sum.lessThan_Suc)
qed

lemma trim_bits_shift:
  assumes "length seedBuf = (bits + 7) div 8"
  shows "bits \<le> 8 * length seedBuf
       \<and> bn_of_buffer seedBuf =
           (\<Sum>i<length seedBuf. unat (seedBuf ! i) * 256 ^ (length seedBuf - 1 - i))
       \<and> trim_bits seedBuf bits = bn_of_buffer seedBuf div 2 ^ (8 * length seedBuf - bits)
       \<and> trim_bits seedBuf bits < 2 ^ bits
       \<and> (\<forall>j. bit (trim_bits seedBuf bits) j =
                bit (bn_of_buffer seedBuf) (j + (8 * length seedBuf - bits)))"
proof -
  define s where "s = 8 * length seedBuf - bits"
  from assms have le: "bits \<le> 8 * length seedBuf" by simp
  from assms have shift: "(bits + 7) div 8 * 8 - bits = s"
    by (simp add: s_def mult.commute)
  then have trim: "trim_bits seedBuf bits = bn_of_buffer seedBuf div 2 ^ s"
    by (simp add: trim_bits_def shrn_def)
  have "(256::nat) ^ length seedBuf = 2 ^ (8 * length seedBuf)"
    by (simp add: power_mult)
  also from le have "\<dots> = 2 ^ bits * 2 ^ s"
    by (simp add: s_def flip: power_add)
  finally have "bn_of_buffer seedBuf < 2 ^ bits * 2 ^ s"
    using bn_of_buffer_less [of seedBuf] by simp
  then have bound: "trim_bits seedBuf bits < 2 ^ bits"
    unfolding trim by (rule less_mult_imp_div_less)
  have bits_eq: "bit (trim_bits seedBuf bits) j = bit (bn_of_buffer seedBuf) (j + s)" for j
    unfolding trim by (simp add: bit_drop_bit_eq add.commute flip: drop_bit_eq_div)
  from le bn_of_buffer_big_endian [of seedBuf] trim bound bits_eq show ?thesis
    unfolding s_def by blast
qed

text \<open>
  C7. \<open>randomBrainSeed\<close> cuts the buffer it trims from the 32 bytes of a SHA-256
  digest: \<open>seedBuf\<close> has \<open>n = min (ceil (bits / 8)) 32\<close> bytes. Whenever \<open>bits \<le> 8 n\<close>, the
  trimming reads the buffer as a big-endian unsigned number and shifts it to the right by
  exactly \<open>8 n - bits\<close> bits. The result is below \<open>2 ^ bits\<close>, and its bits are the
  high-order bits of the buffer, each one unchanged.
\<close>

theorem trim_bits_exact:
  assumes "length digest = 32"
    and "seedBuf = take ((bits + 7) div 8) digest"
    and "bits \<le> 8 * length seedBuf"
  shows "(bits + 7) div 8 * 8 - bits = 8 * length seedBuf - bits
       \<and> bn_of_buffer seedBuf =
           (\<Sum>i<length seedBuf. unat (seedBuf ! i) * 256 ^ (length seedBuf - 1 - i))
       \<and> trim_bits seedBuf bits = bn_of_buffer seedBuf div 2 ^ (8 * length seedBuf - bits)
       \<and> trim_bits seedBuf bits < 2 ^ bits
       \<and> (\<forall>j. bit (trim_bits seedBuf bits) j =
                bit (bn_of_buffer seedBuf) (j + (8 * length seedBuf - bits)))"
proof -
  from assms(1,2) have "length seedBuf = min ((bits + 7) div 8) 32" by simp
  with assms(3) have len: "length seedBuf = (bits + 7) div 8"
    by (cases "(bits + 7) div 8 \<le> 32") (simp_all add: min_def)
  then have "(bits + 7) div 8 * 8 - bits = 8 * length seedBuf - bits"
    by (simp add: mult.commute)
  with trim_bits_shift [OF len] show ?thesis by blast
qed

theorem trim_bits_exact_witness:
  "trim_bits [0xAB, 0xCD] 12 = 0xABC
   \<and> bn_of_buffer [0xAB, 0xCD] = 0xABCD
   \<and> trim_bits [0xAB, 0xCD] 12 < 2 ^ 12"
proof -
  have digest: "length ([0xAB, 0xCD] @ replicate 30 (0 :: 8 word)) = 32" by simp
  have buf: "[0xAB, 0xCD] = take ((12 + 7) div 8) ([0xAB, 0xCD] @ replicate 30 (0 :: 8 word))"
    by simp
  have le: "12 \<le> 8 * length [0xAB, 0xCD :: 8 word]" by simp
  have bn: "bn_of_buffer [0xAB, 0xCD] = 0xABCD"
    by (simp add: bn_of_buffer_def)
  note th = trim_bits_exact [OF digest buf le]
  from th have "trim_bits [0xAB, 0xCD] 12 =
      bn_of_buffer [0xAB, 0xCD] div 2 ^ (8 * length [0xAB, 0xCD :: 8 word] - 12)"
    by blast
  then have "trim_bits [0xAB, 0xCD] 12 = 0xABC"
    unfolding bn by simp
  moreover from th have "trim_bits [0xAB, 0xCD] 12 < 2 ^ 12" by blast
  ultimately show ?thesis using bn by blast
qed

subsection \<open>\<open>checkSeed\<close>, case by case\<close>

lemma checkSeed_unfold:
  "checkSeed d brainSeed options =
     (case (case normalize_seed d brainSeed of
              Inl e \<Rightarrow> Inl e
            | Inr seed \<Rightarrow>
                assertValidSeed d seed (Some (version_of options)) (language_of options)) of
        Inr _ \<Rightarrow> Inr \<lparr>valid = True, error = None\<rparr>
      | Inl err \<Rightarrow> Inr \<lparr>valid = False, error = Some (message err)\<rparr>)"
  by (cases options)
    (simp_all add: checkSeed_def Let_def version_of_def language_of_def no_config_def
      cong: sum.case_cong)

lemma checkSeed_returns: "\<exists>v. checkSeed d brainSeed options = Inr v"
  unfolding checkSeed_unfold by (simp split: sum.split)

lemma checkSeed_null:
  "checkSeed d None options = Inr \<lparr>valid = False, error = Some ''seed string required''\<rparr>"
  unfolding checkSeed_unfold by (simp add: normalize_seed_def)

lemma checkSeed_unknown_language:
  assumes "wordlists d (language_of options) = None"
  shows "checkSeed d (Some s) options =
    Inr \<lparr>valid = False,
         error = Some (''Missing wordlist for language '' @ language_of options)\<rparr>"
  unfolding checkSeed_unfold using assms
  by (simp add: normalize_seed_def assertValidSeed_def checkWords_def validWordlist_def)

lemma checkSeed_unknown_word:
  assumes "wordlists d (language_of options) = Some wordlist"
    and "\<not> list_all (\<lambda>w. w \<in> set wordlist) (split_on CHR '' '' (normalize_text d s))"
  shows "checkSeed d (Some s) options = Inr \<lparr>valid = False, error = Some ''Invalid brain seed''\<rparr>"
  unfolding checkSeed_unfold using assms
  by (simp add: normalize_seed_def assertValidSeed_def checkWords_def validWordlist_def)

lemma checkSeed_mismatch:
  assumes "wordlists d (language_of options) = Some wordlist"
    and "list_all (\<lambda>w. w \<in> set wordlist) (split_on CHR '' '' (normalize_text d s))"
    and "seedVersion d (normalize_text d s)
           (Some (int (length (toLowerCase (version_of options)))))
         \<noteq> toLowerCase (version_of options)"
  shows "checkSeed d (Some s) options =
    Inr \<lparr>valid = False,
         error = Some (''Invalid brain seed version, expecting ''
           @ toLowerCase (version_of options) @ '' got ''
           @ seedVersion d (normalize_text d s)
               (Some (int (length (toLowerCase (version_of options)))))
           @ (if length (split_on CHR '' '' (normalize_text d s)) < 11
              then ''.  Brain seeds are about 12 words but this seed is only ''
                     @ digits10 (length (split_on CHR '' '' (normalize_text d s)))
                     @ '' words.''
              else []))\<rparr>"
  unfolding checkSeed_unfold using assms
  by (simp add: normalize_seed_def assertValidSeed_def checkWords_def validWordlist_def Let_def)

lemma checkSeed_valid:
  assumes "wordlists d (language_of options) = Some wordlist"
    and "list_all (\<lambda>w. w \<in> set wordlist) (split_on CHR '' '' (normalize_text d s))"
    and "seedVersion d (normalize_text d s)
           (Some (int (length (toLowerCase (version_of options)))))
         = toLowerCase (version_of options)"
  shows "checkSeed d (Some s) options = Inr \<lparr>valid = True, error = None\<rparr>"
  unfolding checkSeed_unfold using assms
  by (simp add: normalize_seed_def assertValidSeed_def checkWords_def validWordlist_def Let_def)

subsection \<open>Claim C4: \<open>checkSeed\<close> returns its errors\<close>

text \<open>
  C4, as the code has it. \<open>checkSeed\<close> never throws, whatever the phrase, the version
  and the language: the whole body is one \<open>try\<close> block. A \<open>null\<close> phrase, a word that is
  not in the word list (the empty phrase has one, the empty word, unless the list holds
  it), a version tag that differs from the expected one, and also a language that the
  word list provider does not know, are all answered by
  \<open>{valid: false, error: message}\<close>.
\<close>

theorem checkSeed_never_raises:
  "(\<exists>v. checkSeed d brainSeed options = Inr v)
   \<and> checkSeed d None options =
       Inr \<lparr>valid = False, error = Some ''seed string required''\<rparr>
   \<and> (wordlists d (language_of options) = None \<longrightarrow>
       checkSeed d (Some s) options =
         Inr \<lparr>valid = False,
              error = Some (''Missing wordlist for language '' @ language_of options)\<rparr>)
   \<and> (wordlists d (language_of options) = Some wordlist
        \<and> \<not> list_all (\<lambda>w. w \<in> set wordlist) (split_on CHR '' '' (normalize_text d s)) \<longrightarrow>
       checkSeed d (Some s) options =
         Inr \<lparr>valid = False, error = Some ''Invalid brain seed''\<rparr>)
   \<and> (wordlists d (language_of options) = Some wordlist
        \<and> normalize_text d [] = [] \<and> [] \<notin> set wordlist \<longrightarrow>
       checkSeed d (Some []) options =
         Inr \<lparr>valid = False, error = Some ''Invalid brain seed''\<rparr>)
   \<and> (wordlists d (language_of options) = Some wordlist
        \<and> list_all (\<lambda>w. w \<in> set wordlist) (split_on CHR '' '' (normalize_text d s))
        \<and> seedVersion d (normalize_text d s)
              (Some (int (length (toLowerCase (version_of options)))))
            \<noteq> toLowerCase (version_of options) \<longrightarrow>
       (\<exists>rest. checkSeed d (Some s) options =
          Inr \<lparr>valid = False,
               error = Some (''Invalid brain seed version, expecting ''
                 @ toLowerCase (version_of options) @ '' got '' @ rest)\<rparr>))"
proof (intro conjI impI)
  show "\<exists>v. checkSeed d brainSeed options = Inr v"
    by (rule checkSeed_returns)
  show "checkSeed d None options =
      Inr \<lparr>valid = False, error = Some ''seed string required''\<rparr>"
    by (rule checkSeed_null)
next
  assume "wordlists d (language_of options) = None"
  then show "checkSeed d (Some s) options =
      Inr \<lparr>valid = False,
           error = Some (''Missing wordlist for language '' @ language_of options)\<rparr>"
    by (rule checkSeed_unknown_language)
next
  assume "wordlists d (language_of options) = Some wordlist
      \<and> \<not> list_all (\<lambda>w. w \<in> set wordlist) (split_on CHR '' '' (normalize_text d s))"
  then show "checkSeed d (Some s) options =
      Inr \<lparr>valid = False, error = Some ''Invalid brain seed''\<rparr>"
    using checkSeed_unknown_word by blast
next
  assume a: "wordlists d (language_of options) = Some wordlist
      \<and> normalize_text d [] = [] \<and> [] \<notin> set wordlist"
  then have "\<not> list_all (\<lambda>w. w \<in> set wordlist)
      (split_on CHR '' '' (normalize_text d []))"
    by simp
  with a show "checkSeed d (Some []) options =
      Inr \<lparr>valid = False, error = Some ''Invalid brain seed''\<rparr>"
    using checkSeed_unknown_word by blast
next
  assume a: "wordlists d (language_of options) = Some wordlist
      \<and> list_all (\<lambda>w. w \<in> set wordlist) (split_on CHR '' '' (normalize_text d s))
      \<and> seedVersion d (normalize_text d s)
            (Some (int (length (toLowerCase (version_of options)))))
          \<noteq> toLowerCase (version_of options)"
  from a have "checkSeed d (Some s) options =
    Inr \<lparr>valid = False,
         error = Some (''Invalid brain seed version, expecting ''
           @ toLowerCase (version_of options) @ '' got ''
           @ seedVersion d (normalize_text d s)
               (Some (int (length (toLowerCase (version_of options)))))
           @ (if length (split_on CHR '' '' (normalize_text d s)) < 11
              then ''.  Brain seeds are about 12 words but this seed is only ''
                     @ digits10 (length (split_on CHR '' '' (normalize_text d s)))
                     @ '' words.''
              else []))\<rparr>"
    by (intro checkSeed_mismatch) blast+
  then show "\<exists>rest. checkSeed d (Some s) options =
      Inr \<lparr>valid = False,
           error = Some (''Invalid brain seed version, expecting ''
             @ toLowerCase (version_of options) @ '' got '' @ rest)\<rparr>"
    by blast
qed

lemma language_of_pig_latin: "language_of (Some pig_latin_options) = ''pig_latin''"
  by (simp add: language_of_def pig_latin_options_def)

lemma demo_no_pig_latin: "wordlists demo_deps ''pig_latin'' = None"
  by (simp add: demo_deps_def demo_wordlists_def)

lemma language_of_None: "language_of None = ''english''"
  by (simp add: language_of_def)

lemma version_of_None: "version_of None = ''01''"
  by (simp add: version_of_def DEFAULT_VERSION_def)

lemma demo_normalize_lazy_cat: "normalize_text demo_deps ''lazy cat'' = ''lazy cat''"
  by (simp add: demo_deps_def toLowerCase_def lower_char_def)

lemma demo_normalize_lazy_dog: "normalize_text demo_deps ''lazy dog'' = ''lazy dog''"
  by (simp add: demo_deps_def toLowerCase_def lower_char_def)

lemma demo_normalize_empty: "normalize_text demo_deps [] = []"
  by (simp add: demo_deps_def toLowerCase_def)

text \<open>The claim as it was stated fails for a language that has no word list: the error
  of the word list provider is caught like every other and returned.\<close>

theorem checkSeed_unknown_language_counterexample:
  "checkSeed demo_deps (Some ''lazy dog'') (Some pig_latin_options) =
     Inr \<lparr>valid = False, error = Some ''Missing wordlist for language pig_latin''\<rparr>"
  using checkSeed_unknown_language [of demo_deps "Some pig_latin_options" "''lazy dog''"]
  by (simp add: language_of_pig_latin demo_no_pig_latin)

theorem checkSeed_never_raises_witness:
  "checkSeed demo_deps None None =
     Inr \<lparr>valid = False, error = Some ''seed string required''\<rparr>
   \<and> checkSeed demo_deps (Some ''lazy cat'') None =
     Inr \<lparr>valid = False, error = Some ''Invalid brain seed''\<rparr>
   \<and> checkSeed demo_deps (Some []) None =
     Inr \<lparr>valid = False, error = Some ''Invalid brain seed''\<rparr>
   \<and> checkSeed demo_deps (Some ''able'') (Some pig_latin_options) =
     Inr \<lparr>valid = False, error = Some ''Missing wordlist for language pig_latin''\<rparr>"
proof -
  have wl: "wordlists demo_deps (language_of None) = Some demo_wordlist"
    by (simp add: language_of_None demo_wordlists_english)
  have cat: "\<not> list_all (\<lambda>w. w \<in> set demo_wordlist)
      (split_on CHR '' '' (normalize_text demo_deps ''lazy cat''))"
    by (simp add: demo_normalize_lazy_cat demo_wordlist_def)
  have empty: "[] \<notin> set demo_wordlist"
    by (simp add: demo_wordlist_def)
  have pig: "wordlists demo_deps (language_of (Some pig_latin_options)) = None"
    by (simp add: language_of_pig_latin demo_no_pig_latin)
  note th = checkSeed_never_raises [where d = demo_deps and wordlist = demo_wordlist]
  from th [where options = None] have
    "checkSeed demo_deps None None =
       Inr \<lparr>valid = False, error = Some ''seed string required''\<rparr>"
    by blast
  moreover from th [where options = None and s = "''lazy cat''"] wl cat have
    "checkSeed demo_deps (Some ''lazy cat'') None =
       Inr \<lparr>valid = False, error = Some ''Invalid brain seed''\<rparr>"
    by blast
  moreover from th [where options = None] wl demo_normalize_empty empty have
    "checkSeed demo_deps (Some []) None =
       Inr \<lparr>valid = False, error = Some ''Invalid brain seed''\<rparr>"
    by blast
  moreover from th [where options = "Some pig_latin_options" and s = "''able''"] pig have
    "checkSeed demo_deps (Some ''able'') (Some pig_latin_options) =
       Inr \<lparr>valid = False, error = Some ''Missing wordlist for language pig_latin''\<rparr>"
    by (simp add: language_of_pig_latin)
  ultimately show ?thesis by blast
qed

subsection \<open>Claim C8: the hint for a short seed\<close>

text \<open>
  C8. When every word of the (normalized) phrase is in the word list, the version tag
  differs from the expected version and the phrase has fewer than 11 words, the error
  that \<open>checkSeed\<close> returns ends with the hint that names the number of words. In
  particular \<open>checkSeed("lazy dog")\<close>, for a word list that has both words, a normalizer
  that leaves the phrase as it is and a tag of the phrase other than \<open>01\<close>, returns an
  error that says \<open>this seed is only 2 words\<close>.
\<close>

theorem short_seed_hint:
  "(wordlists d (language_of options) = Some wordlist
    \<and> list_all (\<lambda>w. w \<in> set wordlist) (split_on CHR '' '' (normalize_text d s))
    \<and> seedVersion d (normalize_text d s)
          (Some (int (length (toLowerCase (version_of options)))))
        \<noteq> toLowerCase (version_of options)
    \<and> length (split_on CHR '' '' (normalize_text d s)) < 11 \<longrightarrow>
    checkSeed d (Some s) options =
      Inr \<lparr>valid = False,
           error = Some (''Invalid brain seed version, expecting ''
             @ toLowerCase (version_of options) @ '' got ''
             @ seedVersion d (normalize_text d s)
                 (Some (int (length (toLowerCase (version_of options)))))
             @ ''.  Brain seeds are about 12 words but this seed is only ''
             @ digits10 (length (split_on CHR '' '' (normalize_text d s)))
             @ '' words.'')\<rparr>)
   \<and> (wordlists d ''english'' = Some wordlist
      \<and> ''lazy'' \<in> set wordlist \<and> ''dog'' \<in> set wordlist
      \<and> normalize_text d ''lazy dog'' = ''lazy dog''
      \<and> take 2 (hmac_sha512_hex d ''Seed version'' ''lazy dog'') \<noteq> ''01'' \<longrightarrow>
      checkSeed d (Some ''lazy dog'') None =
        Inr \<lparr>valid = False,
             error = Some (''Invalid brain seed version, expecting 01 got ''
               @ take 2 (hmac_sha512_hex d ''Seed version'' ''lazy dog'')
               @ ''.  Brain seeds are about 12 words but this seed is only 2 words.'')\<rparr>)"
proof (intro conjI impI)
  assume a: "wordlists d (language_of options) = Some wordlist
    \<and> list_all (\<lambda>w. w \<in> set wordlist) (split_on CHR '' '' (normalize_text d s))
    \<and> seedVersion d (normalize_text d s)
          (Some (int (length (toLowerCase (version_of options)))))
        \<noteq> toLowerCase (version_of options)
    \<and> length (split_on CHR '' '' (normalize_text d s)) < 11"
  then have "checkSeed d (Some s) options =
    Inr \<lparr>valid = False,
         error = Some (''Invalid brain seed version, expecting ''
           @ toLowerCase (version_of options) @ '' got ''
           @ seedVersion d (normalize_text d s)
               (Some (int (length (toLowerCase (version_of options)))))
           @ (if length (split_on CHR '' '' (normalize_text d s)) < 11
              then ''.  Brain seeds are about 12 words but this seed is only ''
                     @ digits10 (length (split_on CHR '' '' (normalize_text d s)))
                     @ '' words.''
              else []))\<rparr>"
    by (intro checkSeed_mismatch) blast+
  with a show "checkSeed d (Some s) options =
      Inr \<lparr>valid = False,
           error = Some (''Invalid brain seed version, expecting ''
             @ toLowerCase (version_of options) @ '' got ''
             @ seedVersion d (normalize_text d s)
                 (Some (int (length (toLowerCase (version_of options)))))
             @ ''.  Brain seeds are about 12 words but this seed is only ''
             @ digits10 (length (split_on CHR '' '' (normalize_text d s)))
             @ '' words.'')\<rparr>"
    by simp
next
  assume a: "wordlists d ''english'' = Some wordlist
      \<and> ''lazy'' \<in> set wordlist \<and> ''dog'' \<in> set wordlist
      \<and> normalize_text d ''lazy dog'' = ''lazy dog''
      \<and> take 2 (hmac_sha512_hex d ''Seed version'' ''lazy dog'') \<noteq> ''01''"
  have sp: "split_on CHR '' '' ''lazy dog'' = [''lazy'', ''dog'']" by simp
  have lower: "toLowerCase ''01'' = ''01''"
    by (simp add: toLowerCase_def lower_char_def)
  have "digits10 2 = ''2''"
    by code_simp
  then have two: "digits10 (Suc (Suc 0)) = ''2''"
    by (simp only: numeral_2_eq_2)
  from a have wl: "wordlists d (language_of None) = Some wordlist"
    by (simp add: language_of_None)
  from a have words: "list_all (\<lambda>w. w \<in> set wordlist)
      (split_on CHR '' '' (normalize_text d ''lazy dog''))"
    by (simp only: sp) simp
  from a have tag: "seedVersion d (normalize_text d ''lazy dog'')
        (Some (int (length (toLowerCase (version_of None)))))
      \<noteq> toLowerCase (version_of None)"
    by (simp add: version_of_None lower seedVersion_take)
  from a checkSeed_mismatch [OF wl words tag]
  show "checkSeed d (Some ''lazy dog'') None =
        Inr \<lparr>valid = False,
             error = Some (''Invalid brain seed version, expecting 01 got ''
               @ take 2 (hmac_sha512_hex d ''Seed version'' ''lazy dog'')
               @ ''.  Brain seeds are about 12 words but this seed is only 2 words.'')\<rparr>"
    by (simp add: version_of_None lower seedVersion_take two)
qed

theorem short_seed_hint_witness:
  "checkSeed demo_deps (Some ''lazy dog'') None =
     Inr \<lparr>valid = False,
          error = Some ''Invalid brain seed version, expecting 01 got 00.  Brain seeds are about 12 words but this seed is only 2 words.''\<rparr>"
proof -
  have mem: "''lazy'' \<in> set demo_wordlist" "''dog'' \<in> set demo_wordlist"
    by (simp_all add: demo_wordlist_def)
  have tag: "take 2 (hmac_sha512_hex demo_deps ''Seed version'' ''lazy dog'') = ''00''"
    by (simp add: demo_digest_lazy_dog numeral_2_eq_2)
  then have ne: "take 2 (hmac_sha512_hex demo_deps ''Seed version'' ''lazy dog'') \<noteq> ''01''"
    by simp
  from short_seed_hint [where d = demo_deps and wordlist = demo_wordlist]
    demo_wordlists_english mem demo_normalize_lazy_dog ne
  have "checkSeed demo_deps (Some ''lazy dog'') None =
        Inr \<lparr>valid = False,
             error = Some (''Invalid brain seed version, expecting 01 got ''
               @ take 2 (hmac_sha512_hex demo_deps ''Seed version'' ''lazy dog'')
               @ ''.  Brain seeds are about 12 words but this seed is only 2 words.'')\<rparr>"
    by blast
  then show ?thesis unfolding tag by simp
qed

subsection \<open>The mining loop, step by step\<close>

lemma mine_loop_hit:
  assumes "wordlists d language = Some wordlist" and "2 \<le> length wordlist"
    and "nonce < MAX_SAFE_INTEGER"
    and "version_hit d wordlist version (entropyBn + nonce)"
  shows "mine_loop d language version nonce entropyBn brainSeed =
    Some (Inr (Some (phrase_of wordlist (entropyBn + nonce))))"
  using assms
  by (subst mine_loop.simps) (simp add: bnToSeed_phrase version_hit_def)

lemma mine_loop_miss:
  assumes "wordlists d language = Some wordlist" and "2 \<le> length wordlist"
    and "nonce < MAX_SAFE_INTEGER"
    and "\<not> version_hit d wordlist version (entropyBn + nonce)"
  shows "mine_loop d language version nonce entropyBn brainSeed =
    mine_loop d language version (nonce + 1) (entropyBn + nonce)
      (Some (phrase_of wordlist (entropyBn + nonce)))"
  using assms
  by (subst mine_loop.simps) (auto simp: bnToSeed_phrase version_hit_def)

lemma mine_loop_end:
  assumes "\<not> nonce < MAX_SAFE_INTEGER"
  shows "mine_loop d language version nonce entropyBn brainSeed = Some (Inr brainSeed)"
  using assms by (subst mine_loop.simps) simp

lemma tri_pred: "1 \<le> n \<Longrightarrow> tri (n - 1) + n = tri n"
  by (cases n) simp_all

lemma tri_closed: "tri n = n * (n + 1) div 2"
  by (induction n) simp_all

lemma mine_loop_first_hit:
  assumes "wordlists d language = Some wordlist" and "2 \<le> length wordlist"
    and "1 \<le> nonce" and "nonce \<le> n" and "n < MAX_SAFE_INTEGER"
    and "version_hit d wordlist version (e + tri n)"
    and "\<forall>k. nonce \<le> k \<and> k < n \<longrightarrow> \<not> version_hit d wordlist version (e + tri k)"
  shows "mine_loop d language version nonce (e + tri (nonce - 1)) brainSeed =
    Some (Inr (Some (phrase_of wordlist (e + tri n))))"
  using assms(3,4,7)
proof (induction "n - nonce" arbitrary: nonce brainSeed)
  case 0
  then have "nonce = n" by simp
  with 0(2) have cand: "e + tri (nonce - 1) + nonce = e + tri n"
    using tri_pred [of n] by simp
  from \<open>nonce = n\<close> assms(5) have "nonce < MAX_SAFE_INTEGER" by simp
  from mine_loop_hit [OF assms(1,2) this, of version "e + tri (nonce - 1)"] assms(6)
  show ?case unfolding cand by simp
next
  case (Suc m)
  then have lt: "nonce < n" by simp
  with assms(5) have bound: "nonce < MAX_SAFE_INTEGER" by simp
  from Suc(3) have cand: "e + tri (nonce - 1) + nonce = e + tri nonce"
    using tri_pred [of nonce] by simp
  from Suc(5) lt have "\<not> version_hit d wordlist version (e + tri nonce)"
    by simp
  then have miss: "\<not> version_hit d wordlist version (e + tri (nonce - 1) + nonce)"
    unfolding cand .
  have "mine_loop d language version nonce (e + tri (nonce - 1)) brainSeed =
      mine_loop d language version (nonce + 1) (e + tri nonce)
        (Some (phrase_of wordlist (e + tri nonce)))"
    using mine_loop_miss [OF assms(1,2) bound miss] unfolding cand .
  also have "\<dots> = Some (Inr (Some (phrase_of wordlist (e + tri n))))"
  proof -
    have "mine_loop d language version (nonce + 1) (e + tri (nonce + 1 - 1))
        (Some (phrase_of wordlist (e + tri nonce))) =
      Some (Inr (Some (phrase_of wordlist (e + tri n))))"
    proof (rule Suc(1))
      show "m = n - (nonce + 1)" using Suc(2) by simp
      show "1 \<le> nonce + 1" by simp
      show "nonce + 1 \<le> n" using lt by simp
      show "\<forall>k. nonce + 1 \<le> k \<and> k < n \<longrightarrow> \<not> version_hit d wordlist version (e + tri k)"
        using Suc(5) by simp
    qed
    then show ?thesis by simp
  qed
  finally show ?case .
qed

lemma mine_loop_exhausted:
  assumes "wordlists d language = Some wordlist" and "2 \<le> length wordlist"
    and "1 \<le> nonce" and "nonce < MAX_SAFE_INTEGER"
    and "\<forall>k. nonce \<le> k \<and> k < MAX_SAFE_INTEGER \<longrightarrow>
           \<not> version_hit d wordlist version (e + tri k)"
  shows "mine_loop d language version nonce (e + tri (nonce - 1)) brainSeed =
    Some (Inr (Some (phrase_of wordlist (e + tri (MAX_SAFE_INTEGER - 1)))))"
  using assms(3,4,5)
proof (induction "MAX_SAFE_INTEGER - 1 - nonce" arbitrary: nonce brainSeed)
  case 0
  then have last: "nonce = MAX_SAFE_INTEGER - 1" by simp
  from 0(2) have cand: "e + tri (nonce - 1) + nonce = e + tri nonce"
    using tri_pred [of nonce] by simp
  from 0(3,4) have "\<not> version_hit d wordlist version (e + tri nonce)"
    by simp
  then have miss: "\<not> version_hit d wordlist version (e + tri (nonce - 1) + nonce)"
    unfolding cand .
  have "mine_loop d language version nonce (e + tri (nonce - 1)) brainSeed =
      mine_loop d language version (nonce + 1) (e + tri nonce)
        (Some (phrase_of wordlist (e + tri nonce)))"
    using mine_loop_miss [OF assms(1,2) 0(3) miss] unfolding cand .
  also have "\<dots> = Some (Inr (Some (phrase_of wordlist (e + tri nonce))))"
    using last 0(3) by (intro mine_loop_end) simp
  finally show ?case using last by simp
next
  case (Suc m)
  then have lt: "nonce + 1 < MAX_SAFE_INTEGER" by simp
  from Suc(3) have cand: "e + tri (nonce - 1) + nonce = e + tri nonce"
    using tri_pred [of nonce] by simp
  from Suc(4,5) have "\<not> version_hit d wordlist version (e + tri nonce)"
    by simp
  then have miss: "\<not> version_hit d wordlist version (e + tri (nonce - 1) + nonce)"
    unfolding cand .
  have "mine_loop d language version nonce (e + tri (nonce - 1)) brainSeed =
      mine_loop d language version (nonce + 1) (e + tri nonce)
        (Some (phrase_of wordlist (e + tri nonce)))"
    using mine_loop_miss [OF assms(1,2) Suc(4) miss] unfolding cand .
  also have "\<dots> = Some (Inr (Some (phrase_of wordlist (e + tri (MAX_SAFE_INTEGER - 1)))))"
  proof -
    have "mine_loop d language version (nonce + 1) (e + tri (nonce + 1 - 1))
        (Some (phrase_of wordlist (e + tri nonce))) =
      Some (Inr (Some (phrase_of wordlist (e + tri (MAX_SAFE_INTEGER - 1)))))"
    proof (rule Suc(1))
      show "m = MAX_SAFE_INTEGER - 1 - (nonce + 1)" using Suc(2) by simp
      show "1 \<le> nonce + 1" by simp
      show "nonce + 1 < MAX_SAFE_INTEGER" by (rule lt)
      show "\<forall>k. nonce + 1 \<le> k \<and> k < MAX_SAFE_INTEGER \<longrightarrow>
          \<not> version_hit d wordlist version (e + tri k)"
        using Suc(5) by simp
    qed
    then show ?thesis by simp
  qed
  finally show ?case .
qed

lemma MAX_SAFE_INTEGER_gt: "3 < MAX_SAFE_INTEGER" "1 < MAX_SAFE_INTEGER"
  by (simp_all add: MAX_SAFE_INTEGER_def)

subsection \<open>The example instance in the loop\<close>

lemma demo_phrase_1: "phrase_of demo_wordlist 1 = ''dog''"
  by (simp add: phrase_of_def demo_wordlist_length radix_digits_step radix_digits_0)
    (simp add: demo_wordlist_def)

lemma demo_phrase_2: "phrase_of demo_wordlist 2 = ''lazy''"
  by (simp add: phrase_of_def demo_wordlist_length radix_digits_step radix_digits_0)
    (simp add: demo_wordlist_def)

lemma demo_phrase_3: "phrase_of demo_wordlist 3 = ''mother''"
  by (simp add: phrase_of_def demo_wordlist_length radix_digits_step radix_digits_0)
    (simp add: demo_wordlist_def)

lemma demo_phrase_6: "phrase_of demo_wordlist 6 = ''lazy dog''"
  by (simp add: phrase_of_def demo_wordlist_length radix_digits_step radix_digits_0)
    (simp add: demo_wordlist_def)

lemma demo_tag_00:
  "seedVersion demo_deps msg (Some 2) =
     (if msg = ''lazy'' \<or> msg = ''lazy dog'' then ''00'' else ''ff'')"
  by (simp add: seedVersion_take demo_deps_def demo_digest_def numeral_2_eq_2)

lemma demo_hit_1: "\<not> version_hit demo_deps demo_wordlist ''00'' 1"
  unfolding version_hit_def demo_phrase_1 by (simp add: demo_tag_00)

lemma demo_hit_3: "\<not> version_hit demo_deps demo_wordlist ''00'' 3"
  unfolding version_hit_def demo_phrase_3 by (simp add: demo_tag_00)

lemma demo_hit_6: "version_hit demo_deps demo_wordlist ''00'' 6"
  unfolding version_hit_def demo_phrase_6 by (simp add: demo_tag_00)

lemma tri_values: "tri 1 = 1" "tri 2 = 3" "tri 3 = 6"
  by (simp_all add: numeral_2_eq_2 numeral_3_eq_3)

lemma demo_misses_before_3:
  "\<forall>k. 1 \<le> k \<and> k < 3 \<longrightarrow> \<not> version_hit demo_deps demo_wordlist ''00'' (0 + tri k)"
proof (intro allI impI)
  fix k :: nat
  assume "1 \<le> k \<and> k < 3"
  then have "k = 1 \<or> k = 2" by auto
  then show "\<not> version_hit demo_deps demo_wordlist ''00'' (0 + tri k)"
    using demo_hit_1 demo_hit_3 by (auto simp: tri_values)
qed

lemma demo_mine_00:
  "mine_loop demo_deps ''english'' ''00'' 1 0 None = Some (Inr (Some ''lazy dog''))"
proof -
  have len: "2 \<le> length demo_wordlist" by (simp add: demo_wordlist_length)
  have hit: "version_hit demo_deps demo_wordlist ''00'' (0 + tri 3)"
    using demo_hit_6 by (simp add: tri_values)
  have "mine_loop demo_deps ''english'' ''00'' 1 (0 + tri (1 - 1)) None =
      Some (Inr (Some (phrase_of demo_wordlist (0 + tri 3))))"
    using MAX_SAFE_INTEGER_gt(1)
    by (intro mine_loop_first_hit [OF demo_wordlists_english len _ _ _ hit demo_misses_before_3])
      simp_all
  then show ?thesis by (simp add: tri_values demo_phrase_6)
qed

subsection \<open>Claim C1: which candidates the loop tests\<close>

text \<open>
  C1, as the code has it. Each turn of the loop adds the nonce to the number the turn
  before left (\<open>entropyBn = entropyBn.add(new BN(nonce))\<close>), so the candidate of nonce
  \<open>n\<close> is \<open>entropyValue + (1 + 2 + \<dots> + n)\<close>, that is
  \<open>entropyValue + n (n + 1) / 2\<close>. For a word list of at least two words the
  loop returns the phrase of the first candidate in this sequence, below the bound
  \<open>MAX_SAFE_INTEGER\<close> on the nonce, whose phrase is not empty and whose version tag is
  the lowercase target: the one with the smallest such nonce.
\<close>

theorem mine_loop_first_match:
  assumes "wordlists d language = Some wordlist" and "2 \<le> length wordlist"
    and "1 \<le> n" and "n < MAX_SAFE_INTEGER"
    and "version_hit d wordlist version (entropyValue + tri n)"
    and "\<forall>k. 1 \<le> k \<and> k < n \<longrightarrow> \<not> version_hit d wordlist version (entropyValue + tri k)"
  shows "mine_loop d language version 1 entropyValue None =
           Some (Inr (Some (phrase_of wordlist (entropyValue + tri n))))
       \<and> tri n = n * (n + 1) div 2"
proof -
  have "mine_loop d language version 1 (entropyValue + tri (1 - 1)) None =
      Some (Inr (Some (phrase_of wordlist (entropyValue + tri n))))"
    using assms by (intro mine_loop_first_hit) simp_all
  then show ?thesis by (simp add: tri_closed)
qed

text \<open>With the starting value 0 and the target \<open>00\<close> in the example instance, the
  smallest nonce \<open>n\<close> for which the phrase of \<open>0 + n\<close> has the tag is 2 (the phrase
  \<open>lazy\<close>; the phrase of \<open>0 + 1\<close> has another tag). The loop tests 1, 3 and 6 and
  returns the phrase of 6.\<close>

theorem mine_loop_candidate_counterexample:
  "seedVersion demo_deps (phrase_of demo_wordlist (0 + 1)) (Some 2) \<noteq> ''00''
   \<and> seedVersion demo_deps (phrase_of demo_wordlist (0 + 2)) (Some 2) = ''00''
   \<and> phrase_of demo_wordlist (0 + 2) = ''lazy''
   \<and> mine_loop demo_deps ''english'' ''00'' 1 0 None = Some (Inr (Some ''lazy dog''))
   \<and> phrase_of demo_wordlist (0 + (1 + 2 + 3)) = ''lazy dog''"
proof -
  have sums: "(0::nat) + 1 = 1" "(0::nat) + 2 = 2" "(0::nat) + (1 + 2 + 3) = 6"
    by simp_all
  have one: "seedVersion demo_deps (phrase_of demo_wordlist 1) (Some 2) \<noteq> ''00''"
    unfolding demo_phrase_1 by (simp add: demo_tag_00)
  have two: "seedVersion demo_deps (phrase_of demo_wordlist 2) (Some 2) = ''00''"
    unfolding demo_phrase_2 by (simp add: demo_tag_00)
  show ?thesis
    unfolding sums
    by (intro conjI one two demo_phrase_2 demo_mine_00 demo_phrase_6)
qed

theorem mine_loop_first_match_witness:
  "mine_loop demo_deps ''english'' ''00'' 1 0 None =
     Some (Inr (Some (phrase_of demo_wordlist 6)))
   \<and> tri 3 = 6"
proof -
  have len: "2 \<le> length demo_wordlist" by (simp add: demo_wordlist_length)
  have n: "1 \<le> (3::nat)" "3 < MAX_SAFE_INTEGER"
    using MAX_SAFE_INTEGER_gt(1) by simp_all
  have hit: "version_hit demo_deps demo_wordlist ''00'' (0 + tri 3)"
    using demo_hit_6 by (simp add: tri_values)
  from mine_loop_first_match [OF demo_wordlists_english len n hit demo_misses_before_3]
  have "mine_loop demo_deps ''english'' ''00'' 1 0 None =
      Some (Inr (Some (phrase_of demo_wordlist (0 + tri 3))))"
    by (rule conjunct1)
  then show ?thesis by (simp add: tri_values)
qed

subsection \<open>The loop always returns a phrase\<close>

lemma mine_loop_returns:
  assumes "wordlists d language = Some wordlist" and "2 \<le> length wordlist"
  shows "\<exists>p. mine_loop d language version 1 e None = Some (Inr (Some p))"
proof (cases "\<exists>n. 1 \<le> n \<and> n < MAX_SAFE_INTEGER \<and> version_hit d wordlist version (e + tri n)")
  case True
  define P where "P n \<longleftrightarrow> 1 \<le> n \<and> n < MAX_SAFE_INTEGER
    \<and> version_hit d wordlist version (e + tri n)" for n
  from True have "\<exists>n. P n" by (simp add: P_def)
  then obtain n where n: "P n" and least: "\<forall>k<n. \<not> P k"
    using exists_least_iff [of P] by blast
  from least n have "\<forall>k. 1 \<le> k \<and> k < n \<longrightarrow> \<not> version_hit d wordlist version (e + tri k)"
    by (auto simp: P_def)
  with n have "mine_loop d language version 1 (e + tri (1 - 1)) None =
      Some (Inr (Some (phrase_of wordlist (e + tri n))))"
    unfolding P_def by (intro mine_loop_first_hit [OF assms]) simp_all
  then show ?thesis by simp
next
  case False
  then have "\<forall>k. 1 \<le> k \<and> k < MAX_SAFE_INTEGER \<longrightarrow>
      \<not> version_hit d wordlist version (e + tri k)"
    by blast
  then have "mine_loop d language version 1 (e + tri (1 - 1)) None =
      Some (Inr (Some (phrase_of wordlist (e + tri (MAX_SAFE_INTEGER - 1)))))"
    using MAX_SAFE_INTEGER_gt(2) by (intro mine_loop_exhausted [OF assms]) simp_all
  then show ?thesis by simp
qed

lemma mine_loop_no_match:
  assumes "wordlists d language = Some wordlist" and "2 \<le> length wordlist"
    and "\<forall>n. 1 \<le> n \<and> n < MAX_SAFE_INTEGER \<longrightarrow>
           \<not> version_hit d wordlist version (e + tri n)"
  shows "mine_loop d language version 1 e None =
    Some (Inr (Some (phrase_of wordlist (e + tri (MAX_SAFE_INTEGER - 1)))))"
proof -
  have "mine_loop d language version 1 (e + tri (1 - 1)) None =
      Some (Inr (Some (phrase_of wordlist (e + tri (MAX_SAFE_INTEGER - 1)))))"
    using MAX_SAFE_INTEGER_gt(2) assms(3) by (intro mine_loop_exhausted [OF assms(1,2)]) simp_all
  then show ?thesis by simp
qed

subsection \<open>\<open>randomBrainSeed\<close> with entropy\<close>

lemma randomBrainSeed_sync:
  assumes "config_entropy cfg = Some entropy" and "truthy entropy"
    and "hash_input entropy = Inr entropyBytes"
  shows "randomBrainSeed d (Some cfg) seedCallback =
    mine_loop d (language_of (Some cfg)) (toLowerCase (version_of (Some cfg))) 1
      (entropy_value d (bits_of cfg) entropyBytes) None"
  using assms
  by (simp add: randomBrainSeed_def Let_def language_of_def version_of_def bits_of_def
      entropy_value_def)

lemma bn_of_buffer_zeros: "bn_of_buffer (replicate n 0) = 0"
  by (induction n) (simp_all add: bn_of_buffer_Cons, simp add: bn_of_buffer_def)

lemma demo_entropy_value: "entropy_value demo_deps bits entropyBytes = 0"
  by (simp add: entropy_value_def demo_deps_def demo_sha256_def trim_bits_def shrn_def
      bn_of_buffer_zeros)

lemma demo_tag_g: "seedVersion demo_deps msg (Some 1) \<noteq> ''g''"
  by (simp add: seedVersion_take demo_deps_def demo_digest_def)

lemma demo_never_g: "\<not> version_hit demo_deps demo_wordlist ''g'' v"
  by (simp add: version_hit_def demo_tag_g)

lemma demo_mine_g:
  "mine_loop demo_deps ''english'' ''g'' 1 e None =
     Some (Inr (Some (phrase_of demo_wordlist (e + tri (MAX_SAFE_INTEGER - 1)))))"
  by (intro mine_loop_no_match [OF demo_wordlists_english])
    (simp_all add: demo_wordlist_length demo_never_g)

lemma unmatched_config_sync:
  "randomBrainSeed demo_deps (Some unmatched_config) seedCallback =
     mine_loop demo_deps ''english'' ''g'' 1 0 None"
proof -
  have "randomBrainSeed demo_deps (Some unmatched_config) seedCallback =
    mine_loop demo_deps (language_of (Some unmatched_config))
      (toLowerCase (version_of (Some unmatched_config))) 1
      (entropy_value demo_deps (bits_of unmatched_config)
         (map (\<lambda>c. of_nat (of_char c)) ''entropy'')) None"
    by (rule randomBrainSeed_sync [where entropy = "EString ''entropy''"])
      (simp_all add: unmatched_config_def)
  moreover have "language_of (Some unmatched_config) = ''english''"
    by (simp add: language_of_def unmatched_config_def)
  moreover have "toLowerCase (version_of (Some unmatched_config)) = ''g''"
    by (simp add: version_of_def unmatched_config_def toLowerCase_def lower_char_def)
  ultimately show ?thesis by (simp only: demo_entropy_value)
qed

subsection \<open>What the module's tests expect of the error paths\<close>

text \<open>\<open>randomBrainSeed()\<close> throws \<open>Provide seedCallback parameter ...\<close>;
  \<open>randomBrainSeed({entropy: 2})\<close> throws \<open>... must be a string, buffer, or array\<close>; with
  a language that has no word list \<open>randomBrainSeed\<close> throws \<open>Missing wordlist ...\<close>.\<close>

lemma randomBrainSeed_no_arguments:
  "randomBrainSeed d None False =
     Some (Inl (TypeError
       ''Provide seedCallback parameter unless you plan to provide config.entropy''))"
  by (simp add: randomBrainSeed_def no_config_def)

lemma randomBrainSeed_entropy_number:
  "randomBrainSeed d (Some (no_config\<lparr>config_entropy := Some (ENumber 2)\<rparr>)) seedCallback =
     Some (Inl (TypeError ''entropy parameter must be a string, buffer, or array''))"
  by (simp add: randomBrainSeed_def no_config_def)

lemma randomBrainSeed_unknown_language:
  assumes "wordlists d language = None"
  shows "randomBrainSeed d
      (Some \<lparr>config_bits = None, config_language = Some language,
             config_entropy = Some (EString ''entropy''), config_version = None\<rparr>)
      seedCallback =
     Some (Inl (Error (''Missing wordlist for language '' @ language)))"
  using assms
  by (simp add: randomBrainSeed_def Let_def)
    (subst mine_loop.simps, simp add: bnToSeed_def validWordlist_def MAX_SAFE_INTEGER_def)

subsection \<open>Claim C3: the end of the nonce range\<close>

text \<open>
  C3, as the code has it. The loop is bounded by \<open>nonce < MAX_SAFE_INTEGER\<close>, so for a
  word list of at least two words it always returns, and what it returns is a phrase,
  never an error. When no nonce of the range gives a match, it returns the phrase of the
  last candidate, the one of nonce \<open>MAX_SAFE_INTEGER - 1\<close>, although that phrase does not
  match.
\<close>

theorem mine_loop_bounded:
  assumes "wordlists d language = Some wordlist" and "2 \<le> length wordlist"
  shows "(\<exists>p. mine_loop d language version 1 entropyValue None = Some (Inr (Some p)))
       \<and> ((\<forall>n. 1 \<le> n \<and> n < MAX_SAFE_INTEGER \<longrightarrow>
               \<not> version_hit d wordlist version (entropyValue + tri n)) \<longrightarrow>
           mine_loop d language version 1 entropyValue None =
             Some (Inr (Some (phrase_of wordlist
               (entropyValue + tri (MAX_SAFE_INTEGER - 1)))))
           \<and> \<not> version_hit d wordlist version (entropyValue + tri (MAX_SAFE_INTEGER - 1)))"
proof (intro conjI impI)
  show "\<exists>p. mine_loop d language version 1 entropyValue None = Some (Inr (Some p))"
    using assms by (rule mine_loop_returns)
next
  assume none: "\<forall>n. 1 \<le> n \<and> n < MAX_SAFE_INTEGER \<longrightarrow>
      \<not> version_hit d wordlist version (entropyValue + tri n)"
  with assms show "mine_loop d language version 1 entropyValue None =
      Some (Inr (Some (phrase_of wordlist (entropyValue + tri (MAX_SAFE_INTEGER - 1)))))"
    by (rule mine_loop_no_match)
  from none MAX_SAFE_INTEGER_gt(2)
  show "\<not> version_hit d wordlist version (entropyValue + tri (MAX_SAFE_INTEGER - 1))"
    by simp
qed

text \<open>No hexadecimal digest starts with \<open>g\<close>: for this version \<open>randomBrainSeed\<close> runs
  through the whole range and then returns a phrase whose tag is not the version; it
  does not throw.\<close>

theorem mining_exhausted_counterexample:
  "randomBrainSeed demo_deps (Some unmatched_config) False =
     Some (Inr (Some (phrase_of demo_wordlist (0 + tri (MAX_SAFE_INTEGER - 1)))))
   \<and> seedVersion demo_deps (phrase_of demo_wordlist (0 + tri (MAX_SAFE_INTEGER - 1)))
        (Some (int (length ''g''))) \<noteq> ''g''"
proof
  show "randomBrainSeed demo_deps (Some unmatched_config) False =
     Some (Inr (Some (phrase_of demo_wordlist (0 + tri (MAX_SAFE_INTEGER - 1)))))"
    unfolding unmatched_config_sync by (rule demo_mine_g)
  show "seedVersion demo_deps (phrase_of demo_wordlist (0 + tri (MAX_SAFE_INTEGER - 1)))
        (Some (int (length ''g''))) \<noteq> ''g''"
    using demo_tag_g by simp
qed

theorem mine_loop_bounded_witness:
  "mine_loop demo_deps ''english'' ''g'' 1 5 None =
     Some (Inr (Some (phrase_of demo_wordlist (5 + tri (MAX_SAFE_INTEGER - 1)))))"
proof -
  have len: "2 \<le> length demo_wordlist" by (simp add: demo_wordlist_length)
  from mine_loop_bounded [OF demo_wordlists_english len, of "''g''" 5] demo_never_g
  show ?thesis by blast
qed

subsection \<open>Splitting a joined phrase\<close>

lemma split_on_no_sep: "sep \<notin> set w \<Longrightarrow> split_on sep w = [w]"
  by (induction w) auto

lemma split_on_append:
  "sep \<notin> set w \<Longrightarrow> split_on sep (w @ sep # rest) = w # split_on sep rest"
  by (induction w) (auto split: list.split)

lemma split_on_join_sp:
  "ws \<noteq> [] \<Longrightarrow> \<forall>w \<in> set ws. CHR '' '' \<notin> set w \<Longrightarrow>
   split_on CHR '' '' (join_sp ws) = ws"
proof (induction ws rule: join_sp.induct)
  case 1
  then show ?case by simp
next
  case (2 w)
  then show ?case by (simp add: split_on_no_sep)
next
  case (3 w v ws)
  then show ?case by (simp add: split_on_append)
qed

lemma phrase_words_valid:
  assumes "2 \<le> length wordlist" and "0 < v"
    and "\<forall>w \<in> set wordlist. CHR '' '' \<notin> set w"
  shows "list_all (\<lambda>w. w \<in> set wordlist) (split_on CHR '' '' (phrase_of wordlist v))"
proof -
  define ws where "ws = map (\<lambda>idx. wordlist ! idx) (radix_digits (length wordlist) v)"
  from assms(1,2) have ne: "ws \<noteq> []"
    by (simp add: ws_def radix_digits_step)
  have sub: "set ws \<subseteq> set wordlist"
    using radix_digits_bound [of _ "length wordlist" v] by (auto simp: ws_def)
  with assms(3) have "\<forall>w \<in> set ws. CHR '' '' \<notin> set w" by blast
  with ne have "split_on CHR '' '' (join_sp ws) = ws"
    by (rule split_on_join_sp)
  with sub show ?thesis
    by (auto simp: phrase_of_def ws_def list_all_iff)
qed

subsection \<open>Claim C2: a generated phrase passes the check\<close>

lemma mine_loop_result_hit:
  assumes "wordlists d language = Some wordlist" and "2 \<le> length wordlist"
    and "\<exists>n. 1 \<le> n \<and> n < MAX_SAFE_INTEGER \<and> version_hit d wordlist version (e + tri n)"
    and "mine_loop d language version 1 e None = Some (Inr (Some p))"
  shows "\<exists>n. 1 \<le> n \<and> p = phrase_of wordlist (e + tri n)
           \<and> version_hit d wordlist version (e + tri n)"
proof -
  define P where "P n \<longleftrightarrow> 1 \<le> n \<and> n < MAX_SAFE_INTEGER
    \<and> version_hit d wordlist version (e + tri n)" for n
  from assms(3) have "\<exists>n. P n" by (simp add: P_def)
  then obtain n where n: "P n" and least: "\<forall>k<n. \<not> P k"
    using exists_least_iff [of P] by blast
  from least n have "\<forall>k. 1 \<le> k \<and> k < n \<longrightarrow> \<not> version_hit d wordlist version (e + tri k)"
    by (auto simp: P_def)
  with n have "mine_loop d language version 1 (e + tri (1 - 1)) None =
      Some (Inr (Some (phrase_of wordlist (e + tri n))))"
    unfolding P_def by (intro mine_loop_first_hit [OF assms(1,2)]) simp_all
  with assms(4) have "p = phrase_of wordlist (e + tri n)" by simp
  with n show ?thesis unfolding P_def by blast
qed

text \<open>
  C2. Let \<open>randomBrainSeed\<close> return the phrase \<open>p\<close> for a lowercase version \<open>v\<close>, a word
  list of at least two words, none with a space in it, and let some nonce of the loop's
  range give a match (for a version of one to three hexadecimal characters the search
  expects one within a few thousand turns). Then the tag of \<open>p\<close>, cut to the length of
  \<open>v\<close>, is \<open>v\<close>; and when the normalizer leaves \<open>p\<close> as it is,
  \<open>checkSeed(p, {version: v, language})\<close> returns \<open>{valid: true, error: null}\<close>.
\<close>

theorem generated_seed_is_valid:
  assumes "wordlists d (language_of (Some cfg)) = Some wordlist"
    and "2 \<le> length wordlist"
    and "\<forall>w \<in> set wordlist. CHR '' '' \<notin> set w"
    and "toLowerCase (version_of (Some cfg)) = version_of (Some cfg)"
    and "config_entropy cfg = Some entropy"
    and "hash_input entropy = Inr entropyBytes"
    and "\<exists>n. 1 \<le> n \<and> n < MAX_SAFE_INTEGER
           \<and> version_hit d wordlist (version_of (Some cfg))
                (entropy_value d (bits_of cfg) entropyBytes + tri n)"
    and "randomBrainSeed d (Some cfg) seedCallback = Some (Inr (Some p))"
    and "normalize_text d p = p"
  shows "seedVersion d p (Some (int (length (version_of (Some cfg))))) = version_of (Some cfg)
       \<and> checkSeed d (Some p)
           (Some \<lparr>config_bits = None, config_language = Some (language_of (Some cfg)),
                  config_entropy = None, config_version = Some (version_of (Some cfg))\<rparr>)
         = Inr \<lparr>valid = True, error = None\<rparr>"
proof -
  define v where "v = version_of (Some cfg)"
  define language where "language = language_of (Some cfg)"
  define options where "options = Some \<lparr>config_bits = None, config_language = Some language,
    config_entropy = None, config_version = Some v\<rparr>"
  define e where "e = entropy_value d (bits_of cfg) entropyBytes"
  have truthy: "truthy entropy"
  proof (rule ccontr)
    assume "\<not> truthy entropy"
    with assms(5,8) show False
      by (simp add: randomBrainSeed_def Let_def split: if_splits)
  qed
  from randomBrainSeed_sync [OF assms(5) truthy assms(6), of d seedCallback] assms(4,8)
  have run: "mine_loop d language v 1 e None = Some (Inr (Some p))"
    by (simp add: v_def language_def e_def)
  from assms(1,2,7) run obtain n where n: "1 \<le> n" "p = phrase_of wordlist (e + tri n)"
    "version_hit d wordlist v (e + tri n)"
    using mine_loop_result_hit [of d language wordlist v e p]
    unfolding v_def language_def e_def by blast
  from n have tag: "seedVersion d p (Some (int (length v))) = v"
    by (simp add: version_hit_def)
  from n(1) have pos: "0 < e + tri n" by (cases n) simp_all
  have words: "list_all (\<lambda>w. w \<in> set wordlist) (split_on CHR '' '' p)"
    unfolding n(2) using assms(2) pos assms(3) by (rule phrase_words_valid)
  have lang: "language_of options = language" and vers: "version_of options = v"
    by (simp_all add: options_def language_of_def version_of_def)
  have "checkSeed d (Some p) options = Inr \<lparr>valid = True, error = None\<rparr>"
  proof (rule checkSeed_valid)
    show "wordlists d (language_of options) = Some wordlist"
      using assms(1) by (simp add: lang language_def)
    show "list_all (\<lambda>w. w \<in> set wordlist) (split_on CHR '' '' (normalize_text d p))"
      using words by (simp add: assms(9))
    show "seedVersion d (normalize_text d p)
        (Some (int (length (toLowerCase (version_of options))))) =
      toLowerCase (version_of options)"
      using tag assms(4) by (simp add: assms(9) vers v_def)
  qed
  with tag show ?thesis
    unfolding options_def v_def language_def by simp
qed

lemma demo_wordlist_no_space: "\<forall>w \<in> set demo_wordlist. CHR '' '' \<notin> set w"
  by (simp add: demo_wordlist_def)

lemma demo_config_sync:
  "randomBrainSeed demo_deps (Some demo_config) seedCallback =
     mine_loop demo_deps ''english'' ''00'' 1 0 None"
proof -
  have "randomBrainSeed demo_deps (Some demo_config) seedCallback =
    mine_loop demo_deps (language_of (Some demo_config))
      (toLowerCase (version_of (Some demo_config))) 1
      (entropy_value demo_deps (bits_of demo_config)
         (map (\<lambda>c. of_nat (of_char c)) ''entropy'')) None"
    by (rule randomBrainSeed_sync [where entropy = "EString ''entropy''"])
      (simp_all add: demo_config_def)
  moreover have "language_of (Some demo_config) = ''english''"
    by (simp add: language_of_def demo_config_def)
  moreover have "toLowerCase (version_of (Some demo_config)) = ''00''"
    by (simp add: version_of_def demo_config_def toLowerCase_def lower_char_def)
  ultimately show ?thesis by (simp only: demo_entropy_value)
qed

theorem generated_seed_is_valid_witness:
  "randomBrainSeed demo_deps (Some demo_config) False = Some (Inr (Some ''lazy dog''))
   \<and> seedVersion demo_deps ''lazy dog'' (Some 2) = ''00''
   \<and> checkSeed demo_deps (Some ''lazy dog'')
       (Some \<lparr>config_bits = None, config_language = Some ''english'',
              config_entropy = None, config_version = Some ''00''\<rparr>)
     = Inr \<lparr>valid = True, error = None\<rparr>"
proof -
  have lang: "language_of (Some demo_config) = ''english''"
    by (simp add: language_of_def demo_config_def)
  have vers: "version_of (Some demo_config) = ''00''"
    by (simp add: version_of_def demo_config_def)
  have wl: "wordlists demo_deps (language_of (Some demo_config)) = Some demo_wordlist"
    unfolding lang by (rule demo_wordlists_english)
  have len: "2 \<le> length demo_wordlist" by (simp add: demo_wordlist_length)
  have low: "toLowerCase (version_of (Some demo_config)) = version_of (Some demo_config)"
    unfolding vers by (simp add: toLowerCase_def lower_char_def)
  have ent: "config_entropy demo_config = Some (EString ''entropy'')"
    by (simp add: demo_config_def)
  have inp: "hash_input (EString ''entropy'') = Inr (map (\<lambda>c. of_nat (of_char c)) ''entropy'')"
    by simp
  have found: "\<exists>n. 1 \<le> n \<and> n < MAX_SAFE_INTEGER
      \<and> version_hit demo_deps demo_wordlist (version_of (Some demo_config))
           (entropy_value demo_deps (bits_of demo_config)
              (map (\<lambda>c. of_nat (of_char c)) ''entropy'') + tri n)"
  proof (intro exI conjI)
    show "1 \<le> (3::nat)" by simp
    show "3 < MAX_SAFE_INTEGER" by (rule MAX_SAFE_INTEGER_gt)
    show "version_hit demo_deps demo_wordlist (version_of (Some demo_config))
        (entropy_value demo_deps (bits_of demo_config)
           (map (\<lambda>c. of_nat (of_char c)) ''entropy'') + tri 3)"
      unfolding vers demo_entropy_value using demo_hit_6 by (simp add: tri_values)
  qed
  have gen: "randomBrainSeed demo_deps (Some demo_config) False = Some (Inr (Some ''lazy dog''))"
    unfolding demo_config_sync by (rule demo_mine_00)
  from generated_seed_is_valid [OF wl len demo_wordlist_no_space low ent inp found gen
      demo_normalize_lazy_dog]
  have "seedVersion demo_deps ''lazy dog'' (Some 2) = ''00''
     \<and> checkSeed demo_deps (Some ''lazy dog'')
       (Some \<lparr>config_bits = None, config_language = Some ''english'',
              config_entropy = None, config_version = Some ''00''\<rparr>)
     = Inr \<lparr>valid = True, error = None\<rparr>"
    unfolding lang vers by simp
  with gen show ?thesis by blast
qed

end
